theory Spec2Isabelle
  imports Main
begin

section \<open>Data model\<close>

text \<open>
  Modelled from the spec: the record types Bundle, App and Entrypoint. The handler imports
  them from the common-types package, which is not part of the source; the fields are the
  ones section 3 of the spec lists. The handler itself reads only \<open>bundle.id\<close>,
  \<open>app.id\<close>, \<open>entrypoint.id\<close> and \<open>entrypoint.appId\<close>. A nullable field is an
  \<open>option\<close>, an opaque key-value map an association list.
\<close>

type_synonym config = "(string \<times> string) list"

record Bundle =
  bundle_id :: string
  bundle_name :: string
  bundle_tag :: string

record App =
  app_id :: string
  app_name :: string
  app_defaultConfiguration :: config

record Entrypoint =
  entrypoint_id :: string
  appId :: string
  urlMatcher :: string
  configuration :: "config option"
  bundleId :: "string option"

text \<open>The request body (interface \<open>IRequest\<close>, lines 11-17): three required strings.\<close>

record request_body =
  appName :: string
  entrypointUrlMatcher :: string
  bundleNameTagCombination :: string

text \<open>
  The object literals the handler passes to the storage: \<open>{name, defaultConfiguration}\<close>
  (lines 94-97), \<open>{appId, urlMatcher, configuration}\<close> (lines 105-109) and
  \<open>{bundleId}\<close> (lines 117-119).
\<close>

record app_input =
  new_name :: string
  new_defaultConfiguration :: config

record entrypoint_input =
  new_appId :: string
  new_urlMatcher :: string
  new_configuration :: "config option"

record entrypoint_patch =
  patch_bundleId :: string

text \<open>
  The members of the \<open>Operation\<close> enumeration the handler uses, and the payloads it logs
  with them: \<open>{createdApp}\<close>, \<open>{createdEntrypoint}\<close>, \<open>{oldEntrypoint, newEntrypoint}\<close>.
\<close>

datatype operation = createApp | createEntrypoint | updateEntrypoint

datatype payload =
  CreatedApp App
| CreatedEntrypoint Entrypoint
| UpdatedEntrypoint Entrypoint Entrypoint

section \<open>Collaborators\<close>

text \<open>
  The storage service, the matcher validation and the operation log are imported by the
  handler and are not part of the source: they are parameters of the model. \<open>'s\<close> is the
  state the collaborators keep (the database), \<open>'f\<close> the faults they raise. A lookup reads
  the state and returns a record, null (\<open>None\<close>) or a fault; a mutating call returns its
  result together with the state it leaves, also when it raises.
  \<open>validateEntrypointUrlMatcher\<close> is synchronous and reads no state: it returns the error
  it throws, if any. The three lookups are promises that run side by side; in which order
  they settle is up to the collaborators too (\<open>settle_order\<close>, which may list the three
  promises of \<open>Promise.all\<close> in any order).
\<close>

datatype promise = First | Second | Third

record ('s, 'f) collaborators =
  findLatestByNameTagCombination :: "string \<Rightarrow> 's \<Rightarrow> 'f + Bundle option"
  findOneByIdOrName :: "string \<Rightarrow> 's \<Rightarrow> 'f + App option"
  findOneByIdOrUrlMatcher :: "string \<Rightarrow> 's \<Rightarrow> 'f + Entrypoint option"
  validateEntrypointUrlMatcher :: "string \<Rightarrow> 'f option"
  apps_create :: "app_input \<Rightarrow> 's \<Rightarrow> ('f + App) \<times> 's"
  entrypoints_create :: "entrypoint_input \<Rightarrow> 's \<Rightarrow> ('f + Entrypoint) \<times> 's"
  entrypoints_update :: "string \<Rightarrow> entrypoint_patch \<Rightarrow> 's \<Rightarrow> ('f + Entrypoint) \<times> 's"
  logOperation :: "operation \<Rightarrow> payload \<Rightarrow> 's \<Rightarrow> 'f option \<times> 's"
  settle_order :: "request_body \<Rightarrow> 's \<Rightarrow> promise list"

section \<open>Executions of the handler\<close>

text \<open>
  What the handler raises: its own \<open>BundleNotFoundError\<close> (with the two constructor
  arguments of line 63-66), or whatever a collaborator raised, passed on as it is.
\<close>

datatype 'f error =
  BundleNotFoundError string string
| Fault 'f

text \<open>The body of a response: the 409 carries \<open>{message}\<close>.\<close>

datatype response_body = Message string

text \<open>How a run ends: a response was sent (status, body), or an error was raised.\<close>

datatype 'f outcome =
  Sent nat "response_body option"
| Raised "'f error"

text \<open>
  The calls the handler makes after the three lookups, each with its arguments and with
  what it returned: the trace of a run lists them in the order they were made.
\<close>

datatype 'f event =
  ValidateUrlMatcher string "'f option"
| AppsCreate app_input "'f + App"
| EntrypointsCreate entrypoint_input "'f + Entrypoint"
| EntrypointsUpdate string entrypoint_patch "'f + Entrypoint"
| LogOperation operation payload "'f option"

type_synonym ('s, 'f) run = "'f outcome \<times> 's \<times> 'f event list"

definition raise :: "'f error \<Rightarrow> 's \<Rightarrow> ('s, 'f) run" where
  "raise e s = (Raised e, s, [])"

definition send :: "nat \<Rightarrow> response_body option \<Rightarrow> 's \<Rightarrow> ('s, 'f) run" where
  "send status b s = (Sent status b, s, [])"

definition after :: "'f event \<Rightarrow> ('s, 'f) run \<Rightarrow> ('s, 'f) run" where
  "after ev r = (case r of (out, s, tr) \<Rightarrow> (out, s, ev # tr))"

text \<open>
  \<open>await Promise.all([p, q, r])\<close>: the three results when all three promises are
  fulfilled; when one or more are rejected, the fault of the one that settles first.
  \<open>order\<close> is the order in which the promises settle; a promise it does not list
  settles after the ones it lists, in array order.
\<close>

definition rejection :: "'f + 'a \<Rightarrow> 'f + 'b \<Rightarrow> 'f + 'c \<Rightarrow> promise \<Rightarrow> 'f option" where
  "rejection p q r i =
     (case i of
        First \<Rightarrow> (case p of Inl f \<Rightarrow> Some f | Inr x \<Rightarrow> None)
      | Second \<Rightarrow> (case q of Inl f \<Rightarrow> Some f | Inr y \<Rightarrow> None)
      | Third \<Rightarrow> (case r of Inl f \<Rightarrow> Some f | Inr z \<Rightarrow> None))"

fun first_rejection :: "promise list \<Rightarrow> (promise \<Rightarrow> 'f option) \<Rightarrow> 'f option" where
  "first_rejection [] rejected = None"
| "first_rejection (i # order) rejected =
     (case rejected i of Some f \<Rightarrow> Some f | None \<Rightarrow> first_rejection order rejected)"

definition Promise_all ::
  "promise list \<Rightarrow> 'f + 'a \<Rightarrow> 'f + 'b \<Rightarrow> 'f + 'c \<Rightarrow> 'f + ('a \<times> 'b \<times> 'c)" where
  "Promise_all order p q r =
     (case first_rejection (order @ [First, Second, Third]) (rejection p q r) of
        Some f \<Rightarrow> Inl f
      | None \<Rightarrow>
          (case p of
             Inl f \<Rightarrow> Inl f
           | Inr x \<Rightarrow>
               (case q of
                  Inl f \<Rightarrow> Inl f
                | Inr y \<Rightarrow> (case r of Inl f \<Rightarrow> Inl f | Inr z \<Rightarrow> Inr (x, y, z)))))"

text \<open>Lines 50-59: the three lookups of a request, joined.\<close>

definition lookups ::
  "('s, 'f) collaborators \<Rightarrow> request_body \<Rightarrow> 's \<Rightarrow>
     'f + (Bundle option \<times> App option \<times> Entrypoint option)" where
  "lookups c body s =
     Promise_all (settle_order c body s)
       (findLatestByNameTagCombination c (bundleNameTagCombination body) s)
       (findOneByIdOrName c (appName body) s)
       (findOneByIdOrUrlMatcher c (entrypointUrlMatcher body) s)"

text \<open>
  Lines 116-126: update the entrypoint to point it to the bundle, log the old and the new
  entrypoint, respond 204 with no body.
\<close>

definition update_entrypoint ::
  "('s, 'f) collaborators \<Rightarrow> Bundle \<Rightarrow> Entrypoint \<Rightarrow> 's \<Rightarrow> ('s, 'f) run" where
  "update_entrypoint c bundle entrypoint s =
     (case entrypoints_update c (entrypoint_id entrypoint)
             \<lparr>patch_bundleId = bundle_id bundle\<rparr> s of
        (r, s1) \<Rightarrow>
          after (EntrypointsUpdate (entrypoint_id entrypoint)
                   \<lparr>patch_bundleId = bundle_id bundle\<rparr> r)
            (case r of
               Inl f \<Rightarrow> raise (Fault f) s1
             | Inr newEntrypoint \<Rightarrow>
                 (case logOperation c updateEntrypoint
                         (UpdatedEntrypoint entrypoint newEntrypoint) s1 of
                    (l, s2) \<Rightarrow>
                      after (LogOperation updateEntrypoint
                               (UpdatedEntrypoint entrypoint newEntrypoint) l)
                        (case l of
                           Some f \<Rightarrow> raise (Fault f) s2
                         | None \<Rightarrow> send 204 None s2))))"

text \<open>
  Lines 102-114: create the entrypoint if it doesn't exist, owned by \<open>app\<close>, and log it;
  then go on to the update with the existing or the created entrypoint.
\<close>

definition ensure_entrypoint ::
  "('s, 'f) collaborators \<Rightarrow> request_body \<Rightarrow> Bundle \<Rightarrow> App \<Rightarrow> Entrypoint option \<Rightarrow> 's \<Rightarrow>
     ('s, 'f) run" where
  "ensure_entrypoint c body bundle app existingEntrypoint s =
     (case existingEntrypoint of
        Some entrypoint \<Rightarrow> update_entrypoint c bundle entrypoint s
      | None \<Rightarrow>
          (case entrypoints_create c
                  \<lparr>new_appId = app_id app,
                   new_urlMatcher = entrypointUrlMatcher body,
                   new_configuration = None\<rparr> s of
             (r, s1) \<Rightarrow>
               after (EntrypointsCreate
                        \<lparr>new_appId = app_id app,
                         new_urlMatcher = entrypointUrlMatcher body,
                         new_configuration = None\<rparr> r)
                 (case r of
                    Inl f \<Rightarrow> raise (Fault f) s1
                  | Inr entrypoint \<Rightarrow>
                      (case logOperation c createEntrypoint
                              (CreatedEntrypoint entrypoint) s1 of
                         (l, s2) \<Rightarrow>
                           after (LogOperation createEntrypoint
                                    (CreatedEntrypoint entrypoint) l)
                             (case l of
                                Some f \<Rightarrow> raise (Fault f) s2
                              | None \<Rightarrow> update_entrypoint c bundle entrypoint s2)))))"

text \<open>
  Lines 85-100: create the app if it doesn't exist, after validating the url matcher, and
  log it; then go on with the existing or the created app.
\<close>

definition ensure_app ::
  "('s, 'f) collaborators \<Rightarrow> request_body \<Rightarrow> Bundle \<Rightarrow> App option \<Rightarrow> Entrypoint option \<Rightarrow>
     's \<Rightarrow> ('s, 'f) run" where
  "ensure_app c body bundle existingApp existingEntrypoint s =
     (case existingApp of
        Some app \<Rightarrow> ensure_entrypoint c body bundle app existingEntrypoint s
      | None \<Rightarrow>
          after (ValidateUrlMatcher (entrypointUrlMatcher body)
                   (validateEntrypointUrlMatcher c (entrypointUrlMatcher body)))
            (case validateEntrypointUrlMatcher c (entrypointUrlMatcher body) of
               Some f \<Rightarrow> raise (Fault f) s
             | None \<Rightarrow>
                 (case apps_create c
                         \<lparr>new_name = appName body, new_defaultConfiguration = []\<rparr> s of
                    (r, s1) \<Rightarrow>
                      after (AppsCreate
                               \<lparr>new_name = appName body, new_defaultConfiguration = []\<rparr> r)
                        (case r of
                           Inl f \<Rightarrow> raise (Fault f) s1
                         | Inr app \<Rightarrow>
                             (case logOperation c createApp (CreatedApp app) s1 of
                                (l, s2) \<Rightarrow>
                                  after (LogOperation createApp (CreatedApp app) l)
                                    (case l of
                                       Some f \<Rightarrow> raise (Fault f) s2
                                     | None \<Rightarrow>
                                         ensure_entrypoint c body bundle app
                                           existingEntrypoint s2))))))"

text \<open>
  Lines 75-78: the entrypoint exists and the app does not, or the app is not the one the
  entrypoint belongs to.
\<close>

definition mismatch :: "App option \<Rightarrow> Entrypoint option \<Rightarrow> bool" where
  "mismatch existingApp existingEntrypoint =
     (case existingEntrypoint of
        None \<Rightarrow> False
      | Some e \<Rightarrow> (case existingApp of None \<Rightarrow> True | Some a \<Rightarrow> app_id a \<noteq> appId e))"

text \<open>
  Line 80: the message of the 409. After the url matcher the template has the character
  U+00A0 (no-break space) and no ordinary space; strings are byte strings here, so it is
  the two bytes of its UTF-8 encoding.
\<close>

definition conflict_message :: "request_body \<Rightarrow> string" where
  "conflict_message body =
     ''Entrypoint with urlMatcher = '' @ entrypointUrlMatcher body @
     [CHR 0xC2, CHR 0xA0] @ ''doesn't link to app with name = '' @ appName body"

text \<open>Lines 49-127: the handler of \<open>POST /deploy\<close>.\<close>

definition handler :: "('s, 'f) collaborators \<Rightarrow> request_body \<Rightarrow> 's \<Rightarrow> ('s, 'f) run" where
  "handler c body s =
     (case lookups c body s of
        Inl f \<Rightarrow> raise (Fault f) s
      | Inr (bundle, existingApp, existingEntrypoint) \<Rightarrow>
          (case bundle of
             None \<Rightarrow>
               raise (BundleNotFoundError (bundleNameTagCombination body)
                        ''name:tag combination'') s
           | Some bundle \<Rightarrow>
               if mismatch existingApp existingEntrypoint
               then send 409 (Some (Message (conflict_message body))) s
               else ensure_app c body bundle existingApp existingEntrypoint s))"

text \<open>The three components of a run.\<close>

definition outcome_of :: "('s, 'f) run \<Rightarrow> 'f outcome" where
  "outcome_of r = fst r"

definition state_of :: "('s, 'f) run \<Rightarrow> 's" where
  "state_of r = fst (snd r)"

definition trace_of :: "('s, 'f) run \<Rightarrow> 'f event list" where
  "trace_of r = snd (snd r)"

section \<open>Reading a trace\<close>

text \<open>The fault a call raised, if it raised one.\<close>

fun fault_of :: "'f event \<Rightarrow> 'f option" where
  "fault_of (ValidateUrlMatcher m r) = r"
| "fault_of (AppsCreate i r) = (case r of Inl f \<Rightarrow> Some f | Inr a \<Rightarrow> None)"
| "fault_of (EntrypointsCreate i r) = (case r of Inl f \<Rightarrow> Some f | Inr e \<Rightarrow> None)"
| "fault_of (EntrypointsUpdate k p r) = (case r of Inl f \<Rightarrow> Some f | Inr e \<Rightarrow> None)"
| "fault_of (LogOperation op p l) = l"

text \<open>The url matchers handed to \<open>validateEntrypointUrlMatcher\<close>.\<close>

fun validations :: "'f event list \<Rightarrow> string list" where
  "validations [] = []"
| "validations (ValidateUrlMatcher m r # tr) = m # validations tr"
| "validations (ev # tr) = validations tr"

text \<open>The calls of \<open>storage.entrypoints.update\<close>: id, patch and result.\<close>

fun updates :: "'f event list \<Rightarrow> (string \<times> entrypoint_patch \<times> ('f + Entrypoint)) list" where
  "updates [] = []"
| "updates (EntrypointsUpdate k p r # tr) = (k, p, r) # updates tr"
| "updates (ev # tr) = updates tr"

text \<open>
  The storage mutations a trace performed (the mutating calls that returned), by the kind
  of operation, and the operations handed to \<open>logOperation\<close>, both in the order of the
  trace.
\<close>

fun performed :: "'f event list \<Rightarrow> operation list" where
  "performed [] = []"
| "performed (AppsCreate i (Inr a) # tr) = createApp # performed tr"
| "performed (EntrypointsCreate i (Inr e) # tr) = createEntrypoint # performed tr"
| "performed (EntrypointsUpdate k p (Inr e) # tr) = updateEntrypoint # performed tr"
| "performed (ev # tr) = performed tr"

fun emitted :: "'f event list \<Rightarrow> operation list" where
  "emitted [] = []"
| "emitted (LogOperation op p l # tr) = op # emitted tr"
| "emitted (ev # tr) = emitted tr"

text \<open>
  The operations whose \<open>logOperation\<close> call returned, so that the event is in the
  audit log, and the faults of the \<open>logOperation\<close> calls that raised.
\<close>

fun recorded :: "'f event list \<Rightarrow> operation list" where
  "recorded [] = []"
| "recorded (LogOperation op p None # tr) = op # recorded tr"
| "recorded (ev # tr) = recorded tr"

fun log_faults :: "'f event list \<Rightarrow> 'f list" where
  "log_faults [] = []"
| "log_faults (LogOperation op p (Some f) # tr) = f # log_faults tr"
| "log_faults (ev # tr) = log_faults tr"

text \<open>
  \<open>logged op p tr\<close>: the trace \<open>tr\<close> starts with the call \<open>logOperation(op, p)\<close>.
\<close>

fun logged :: "operation \<Rightarrow> payload \<Rightarrow> 'f event list \<Rightarrow> bool" where
  "logged op p (LogOperation op' p' l # tr) = (op' = op \<and> p' = p)"
| "logged op p tr = False"

text \<open>
  \<open>audited held tr\<close>: in \<open>tr\<close> every mutation that was performed is followed at once by
  the \<open>logOperation\<close> call of its kind, carrying the record the mutation returned, and
  there is no other \<open>logOperation\<close> call. \<open>held\<close> is the entrypoint the handler holds
  before the update (the one found, or the one just created): the log of the update
  carries it as the old snapshot together with the entrypoint the update returned.
\<close>

fun audited :: "Entrypoint option \<Rightarrow> 'f event list \<Rightarrow> bool" where
  "audited held [] = True"
| "audited held (AppsCreate i (Inr a) # tr) =
     (logged createApp (CreatedApp a) tr \<and> audited held (tl tr))"
| "audited held (EntrypointsCreate i (Inr e) # tr) =
     (logged createEntrypoint (CreatedEntrypoint e) tr \<and> audited (Some e) (tl tr))"
| "audited held (EntrypointsUpdate k p (Inr e) # tr) =
     (case held of
        None \<Rightarrow> False
      | Some old \<Rightarrow>
          k = entrypoint_id old \<and> logged updateEntrypoint (UpdatedEntrypoint old e) tr \<and>
          audited held (tl tr))"
| "audited held (LogOperation op p l # tr) = False"
| "audited held (ev # tr) = audited held tr"

text \<open>
  \<open>validated_creates v tr\<close>: every \<open>storage.apps.create\<close> call of \<open>tr\<close> comes after a
  validation that passed (\<open>v\<close> tells whether one has passed before \<open>tr\<close>).
\<close>

fun validated_creates :: "bool \<Rightarrow> 'f event list \<Rightarrow> bool" where
  "validated_creates v [] = True"
| "validated_creates v (ValidateUrlMatcher m r # tr) = validated_creates (v \<or> r = None) tr"
| "validated_creates v (AppsCreate i r # tr) = (v \<and> validated_creates v tr)"
| "validated_creates v (ev # tr) = validated_creates v tr"

text \<open>
  \<open>replay c s tr\<close> makes the calls of \<open>tr\<close> again, one after the other from the state
  \<open>s\<close>: the state they leave, provided each call returns what the trace recorded.
\<close>

fun replay :: "('s, 'f) collaborators \<Rightarrow> 's \<Rightarrow> 'f event list \<Rightarrow> 's option" where
  "replay c s [] = Some s"
| "replay c s (ValidateUrlMatcher m r # tr) =
     (if validateEntrypointUrlMatcher c m = r then replay c s tr else None)"
| "replay c s (AppsCreate i r # tr) =
     (if fst (apps_create c i s) = r then replay c (snd (apps_create c i s)) tr else None)"
| "replay c s (EntrypointsCreate i r # tr) =
     (if fst (entrypoints_create c i s) = r
      then replay c (snd (entrypoints_create c i s)) tr else None)"
| "replay c s (EntrypointsUpdate k p r # tr) =
     (if fst (entrypoints_update c k p s) = r
      then replay c (snd (entrypoints_update c k p s)) tr else None)"
| "replay c s (LogOperation op p l # tr) =
     (if fst (logOperation c op p s) = l
      then replay c (snd (logOperation c op p s)) tr else None)"

section \<open>An in-memory storage\<close>

text \<open>
  The storage collaborator, the matcher validation and the audit log are not part of the
  source. Section 6 of the spec names their operations; this is the plainest storage that
  offers them. A lookup by id or name (id or url matcher) returns the first record whose
  id or whose name (url matcher) is the reference. How ids are made and what makes a url
  matcher well formed is not in the source either: they are the parameters \<open>newId\<close>
  and \<open>wellFormed\<close>.
\<close>

text \<open>
  Modelled from the spec: the faults of the collaborators, which the spec leaves to them
  ("a collaborator-defined fault"). The validation raises a validation error; the update
  of an entrypoint that is not there and a service that is down are the two other ways
  this storage can fail.
\<close>

datatype storage_fault =
  InvalidUrlMatcher string
| EntrypointNotFound string
| OutOfService

text \<open>
  Modelled from the spec: the state of the storage. The apps, the entrypoints and the log
  are in the order of creation, the bundles with the latest first; \<open>nextId\<close> counts the
  ids given out.
\<close>

record memory =
  all_bundles :: "Bundle list"
  all_apps :: "App list"
  all_entrypoints :: "Entrypoint list"
  all_operationLogs :: "(operation \<times> payload) list"
  nextId :: nat

text \<open>
  Modelled from the spec: \<open>FindLatestByNameTag(ref) -> Bundle|null\<close>, the latest
  bundle whose name and tag form the name:tag combination \<open>ref\<close>.
\<close>

definition nameTagCombination :: "Bundle \<Rightarrow> string" where
  "nameTagCombination b = bundle_name b @ '':'' @ bundle_tag b"

definition mem_findLatestByNameTagCombination ::
  "string \<Rightarrow> memory \<Rightarrow> storage_fault + Bundle option" where
  "mem_findLatestByNameTagCombination ref s =
     Inr (find (\<lambda>b. nameTagCombination b = ref) (all_bundles s))"

text \<open>
  Modelled from the spec: \<open>FindOneByIdOrName(ref) -> App|null\<close> and
  \<open>FindOneByIdOrUrlMatcher(ref) -> Entrypoint|null\<close>.
\<close>

definition mem_findOneByIdOrName :: "string \<Rightarrow> memory \<Rightarrow> storage_fault + App option" where
  "mem_findOneByIdOrName ref s =
     Inr (find (\<lambda>a. app_id a = ref \<or> app_name a = ref) (all_apps s))"

definition mem_findOneByIdOrUrlMatcher ::
  "string \<Rightarrow> memory \<Rightarrow> storage_fault + Entrypoint option" where
  "mem_findOneByIdOrUrlMatcher ref s =
     Inr (find (\<lambda>e. entrypoint_id e = ref \<or> urlMatcher e = ref) (all_entrypoints s))"

text \<open>
  Modelled from the spec: \<open>ValidateUrlMatcher(string) -> ok | raises validation error\<close>.
\<close>

definition mem_validateEntrypointUrlMatcher ::
  "(string \<Rightarrow> bool) \<Rightarrow> string \<Rightarrow> storage_fault option" where
  "mem_validateEntrypointUrlMatcher wellFormed m =
     (if wellFormed m then None else Some (InvalidUrlMatcher m))"

text \<open>
  Modelled from the spec: \<open>Create({name, defaultConfiguration}) -> App\<close> and
  \<open>Create({appId, urlMatcher, configuration}) -> Entrypoint\<close>. The record gets a new id
  and the fields of the input; the entrypoint is created with a null bundle.
\<close>

definition mem_apps_create ::
  "(nat \<Rightarrow> string) \<Rightarrow> app_input \<Rightarrow> memory \<Rightarrow> (storage_fault + App) \<times> memory" where
  "mem_apps_create newId i s =
     (Inr \<lparr>app_id = newId (nextId s), app_name = new_name i,
            app_defaultConfiguration = new_defaultConfiguration i\<rparr>,
      s\<lparr>all_apps := all_apps s @
            [\<lparr>app_id = newId (nextId s), app_name = new_name i,
              app_defaultConfiguration = new_defaultConfiguration i\<rparr>],
        nextId := Suc (nextId s)\<rparr>)"

definition mem_entrypoints_create ::
  "(nat \<Rightarrow> string) \<Rightarrow> entrypoint_input \<Rightarrow> memory \<Rightarrow>
     (storage_fault + Entrypoint) \<times> memory" where
  "mem_entrypoints_create newId i s =
     (Inr \<lparr>entrypoint_id = newId (nextId s), appId = new_appId i,
            urlMatcher = new_urlMatcher i, configuration = new_configuration i,
            bundleId = None\<rparr>,
      s\<lparr>all_entrypoints := all_entrypoints s @
            [\<lparr>entrypoint_id = newId (nextId s), appId = new_appId i,
              urlMatcher = new_urlMatcher i, configuration = new_configuration i,
              bundleId = None\<rparr>],
        nextId := Suc (nextId s)\<rparr>)"

text \<open>
  Modelled from the spec: \<open>Update(id, {bundleId}) -> Entrypoint\<close>. It sets the
  \<open>bundleId\<close>, and no other field, of every stored entrypoint with the given id (ids
  are meant to be unique), and returns the updated entrypoint; it raises when no
  entrypoint has the id.
\<close>

definition set_bundleId :: "string \<Rightarrow> string \<Rightarrow> Entrypoint \<Rightarrow> Entrypoint" where
  "set_bundleId k b e = (if entrypoint_id e = k then e\<lparr>bundleId := Some b\<rparr> else e)"

definition mem_entrypoints_update ::
  "string \<Rightarrow> entrypoint_patch \<Rightarrow> memory \<Rightarrow> (storage_fault + Entrypoint) \<times> memory" where
  "mem_entrypoints_update k p s =
     (case find (\<lambda>e. entrypoint_id e = k) (all_entrypoints s) of
        None \<Rightarrow> (Inl (EntrypointNotFound k), s)
      | Some e \<Rightarrow>
          (Inr (e\<lparr>bundleId := Some (patch_bundleId p)\<rparr>),
           s\<lparr>all_entrypoints := map (set_bundleId k (patch_bundleId p)) (all_entrypoints s)\<rparr>))"

text \<open>
  Modelled from the spec: \<open>LogOperation(kind, payload)\<close>, which appends to the log.
\<close>

definition mem_logOperation ::
  "operation \<Rightarrow> payload \<Rightarrow> memory \<Rightarrow> storage_fault option \<times> memory" where
  "mem_logOperation op p s = (None, s\<lparr>all_operationLogs := all_operationLogs s @ [(op, p)]\<rparr>)"

text \<open>
  Modelled from the spec: the collaborators of the handler, served from memory. Its
  lookups never reject, so that the order in which they settle plays no part.
\<close>

definition memory_storage ::
  "(nat \<Rightarrow> string) \<Rightarrow> (string \<Rightarrow> bool) \<Rightarrow> (memory, storage_fault) collaborators" where
  "memory_storage newId wellFormed =
     \<lparr>findLatestByNameTagCombination = mem_findLatestByNameTagCombination,
      findOneByIdOrName = mem_findOneByIdOrName,
      findOneByIdOrUrlMatcher = mem_findOneByIdOrUrlMatcher,
      validateEntrypointUrlMatcher = mem_validateEntrypointUrlMatcher wellFormed,
      apps_create = mem_apps_create newId,
      entrypoints_create = mem_entrypoints_create newId,
      entrypoints_update = mem_entrypoints_update,
      logOperation = mem_logOperation,
      settle_order = (\<lambda>body s. [])\<rparr>"

text \<open>The same collaborators with an audit log that is out of service.\<close>

definition without_log ::
  "('s, storage_fault) collaborators \<Rightarrow> ('s, storage_fault) collaborators" where
  "without_log c = c\<lparr>logOperation := \<lambda>op p s. (Some OutOfService, s)\<rparr>"

section \<open>What idempotence needs from a storage\<close>

text \<open>
  The handler reads back what it wrote only through the storage, so what a second call
  finds depends on the storage. The laws below are what the spec takes for granted of it:
  a mutation changes no lookup it is not about, a created record is found by the name
  (the url matcher) it was created with, an update keeps the entrypoint where it is found
  and gives it the bundle, an entrypoint that is found can be updated, and the audit log
  is in service.
\<close>

definition unchanged_bundles :: "('s, 'f) collaborators \<Rightarrow> 's \<Rightarrow> 's \<Rightarrow> bool" where
  "unchanged_bundles c s s' =
     (\<forall>r. findLatestByNameTagCombination c r s' = findLatestByNameTagCombination c r s)"

definition unchanged_apps :: "('s, 'f) collaborators \<Rightarrow> 's \<Rightarrow> 's \<Rightarrow> bool" where
  "unchanged_apps c s s' = (\<forall>r. findOneByIdOrName c r s' = findOneByIdOrName c r s)"

definition unchanged_entrypoints :: "('s, 'f) collaborators \<Rightarrow> 's \<Rightarrow> 's \<Rightarrow> bool" where
  "unchanged_entrypoints c s s' =
     (\<forall>r. findOneByIdOrUrlMatcher c r s' = findOneByIdOrUrlMatcher c r s)"

definition log_law :: "('s, 'f) collaborators \<Rightarrow> bool" where
  "log_law c =
     (\<forall>op p s. fst (logOperation c op p s) = None \<and>
        unchanged_bundles c s (snd (logOperation c op p s)) \<and>
        unchanged_apps c s (snd (logOperation c op p s)) \<and>
        unchanged_entrypoints c s (snd (logOperation c op p s)))"

definition apps_create_law :: "('s, 'f) collaborators \<Rightarrow> bool" where
  "apps_create_law c =
     (\<forall>i s a s'. apps_create c i s = (Inr a, s') \<longrightarrow>
        unchanged_bundles c s s' \<and> unchanged_entrypoints c s s' \<and>
        (findOneByIdOrName c (new_name i) s = Inr None \<longrightarrow>
           findOneByIdOrName c (new_name i) s' = Inr (Some a)))"

definition entrypoints_create_law :: "('s, 'f) collaborators \<Rightarrow> bool" where
  "entrypoints_create_law c =
     (\<forall>i s e s'. entrypoints_create c i s = (Inr e, s') \<longrightarrow>
        unchanged_bundles c s s' \<and> unchanged_apps c s s' \<and> appId e = new_appId i \<and>
        (findOneByIdOrUrlMatcher c (new_urlMatcher i) s = Inr None \<longrightarrow>
           findOneByIdOrUrlMatcher c (new_urlMatcher i) s' = Inr (Some e)))"

definition entrypoints_update_law :: "('s, 'f) collaborators \<Rightarrow> bool" where
  "entrypoints_update_law c =
     (\<forall>k p s e' s'. entrypoints_update c k p s = (Inr e', s') \<longrightarrow>
        unchanged_bundles c s s' \<and> unchanged_apps c s s' \<and>
        (\<forall>m e. findOneByIdOrUrlMatcher c m s = Inr (Some e) \<and> entrypoint_id e = k \<longrightarrow>
           (\<exists>e2. findOneByIdOrUrlMatcher c m s' = Inr (Some e2) \<and>
              entrypoint_id e2 = k \<and> appId e2 = appId e \<and>
              bundleId e2 = Some (patch_bundleId p))))"

definition updatable_law :: "('s, 'f) collaborators \<Rightarrow> bool" where
  "updatable_law c =
     (\<forall>m e p s. findOneByIdOrUrlMatcher c m s = Inr (Some e) \<longrightarrow>
        (\<exists>e'. fst (entrypoints_update c (entrypoint_id e) p s) = Inr e'))"

definition storage_laws :: "('s, 'f) collaborators \<Rightarrow> bool" where
  "storage_laws c =
     (log_law c \<and> apps_create_law c \<and> entrypoints_create_law c \<and>
      entrypoints_update_law c \<and> updatable_law c)"

section \<open>Scenarios\<close>

text \<open>
  The stores and requests of the end-to-end scenarios of the spec, on the in-memory
  storage: ids are \<open>id\<close>, \<open>id+\<close>, \<open>id++\<close>, ..., and a url matcher is well formed when
  it has a slash.
\<close>

definition unary_id :: "nat \<Rightarrow> string" where
  "unary_id n = ''id'' @ replicate n (CHR ''+'')"

definition has_slash :: "string \<Rightarrow> bool" where
  "has_slash m = (CHR ''/'' \<in> set m)"

definition demo_storage :: "(memory, storage_fault) collaborators" where
  "demo_storage = memory_storage unary_id has_slash"

text \<open>Bundle \<open>site:v1\<close> exists; app \<open>acme\<close> and the entrypoint do not.\<close>

definition fresh_store :: memory where
  "fresh_store =
     \<lparr>all_bundles = [\<lparr>bundle_id = ''b1'', bundle_name = ''site'', bundle_tag = ''v1''\<rparr>],
      all_apps = [], all_entrypoints = [], all_operationLogs = [], nextId = 0\<rparr>"

definition deploy_v1 :: request_body where
  "deploy_v1 =
     \<lparr>appName = ''acme'', entrypointUrlMatcher = ''acme.example.com/*'',
      bundleNameTagCombination = ''site:v1''\<rparr>"

text \<open>
  Bundle \<open>site:v2\<close> exists, app \<open>acme\<close> exists with id \<open>a1\<close>, and the entrypoint exists
  and belongs to another app, \<open>a2\<close>.
\<close>

definition conflict_store :: memory where
  "conflict_store =
     \<lparr>all_bundles = [\<lparr>bundle_id = ''b2'', bundle_name = ''site'', bundle_tag = ''v2''\<rparr>],
      all_apps = [\<lparr>app_id = ''a1'', app_name = ''acme'', app_defaultConfiguration = []\<rparr>],
      all_entrypoints =
        [\<lparr>entrypoint_id = ''e1'', appId = ''a2'', urlMatcher = ''acme.example.com/*'',
          configuration = None, bundleId = None\<rparr>],
      all_operationLogs = [], nextId = 0\<rparr>"

definition deploy_v2 :: request_body where
  "deploy_v2 =
     \<lparr>appName = ''acme'', entrypointUrlMatcher = ''acme.example.com/*'',
      bundleNameTagCombination = ''site:v2''\<rparr>"

text \<open>
  A request that names the entrypoint \<open>e1\<close> of the store above by its id, which is not
  a well-formed url matcher, and an app that does not exist.
\<close>

definition deploy_by_id :: request_body where
  "deploy_by_id =
     \<lparr>appName = ''acne'', entrypointUrlMatcher = ''e1'',
      bundleNameTagCombination = ''site:v2''\<rparr>"

text \<open>A request for a bundle the store above does not have, and for a new entrypoint.\<close>

definition deploy_v3 :: request_body where
  "deploy_v3 =
     \<lparr>appName = ''acme'', entrypointUrlMatcher = ''acme.example.com/blog/'',
      bundleNameTagCombination = ''site:v3''\<rparr>"

text \<open>The same new entrypoint, with the bundle the store has.\<close>

definition deploy_blog :: request_body where
  "deploy_blog =
     \<lparr>appName = ''acme'', entrypointUrlMatcher = ''acme.example.com/blog/'',
      bundleNameTagCombination = ''site:v2''\<rparr>"

text \<open>A request with a url matcher that is not well formed, for the first store.\<close>

definition deploy_malformed :: request_body where
  "deploy_malformed =
     \<lparr>appName = ''acme'', entrypointUrlMatcher = ''acme'',
      bundleNameTagCombination = ''site:v1''\<rparr>"

text \<open>
  A store in which the entrypoint of the request \<open>deploy_v2\<close> exists, belongs to the
  app \<open>acme\<close>, has a configuration of its own and serves bundle \<open>b1\<close>; a second
  entrypoint of the app serves the same bundle.
\<close>

definition linked_store :: memory where
  "linked_store =
     \<lparr>all_bundles =
        [\<lparr>bundle_id = ''b2'', bundle_name = ''site'', bundle_tag = ''v2''\<rparr>,
         \<lparr>bundle_id = ''b1'', bundle_name = ''site'', bundle_tag = ''v1''\<rparr>],
      all_apps =
        [\<lparr>app_id = ''a1'', app_name = ''acme'',
          app_defaultConfiguration = [(''THEME'', ''dark'')]\<rparr>],
      all_entrypoints =
        [\<lparr>entrypoint_id = ''e1'', appId = ''a1'', urlMatcher = ''acme.example.com/*'',
          configuration = Some [(''API_URL'', ''/api'')], bundleId = Some ''b1''\<rparr>,
         \<lparr>entrypoint_id = ''e2'', appId = ''a1'', urlMatcher = ''acme.example.com/docs/'',
          configuration = None, bundleId = Some ''b1''\<rparr>],
      all_operationLogs = [], nextId = 0\<rparr>"

text \<open>The first store after the request \<open>deploy_v1\<close> has been served.\<close>

definition deployed_store :: memory where
  "deployed_store =
     \<lparr>all_bundles = [\<lparr>bundle_id = ''b1'', bundle_name = ''site'', bundle_tag = ''v1''\<rparr>],
      all_apps = [\<lparr>app_id = ''id'', app_name = ''acme'', app_defaultConfiguration = []\<rparr>],
      all_entrypoints =
        [\<lparr>entrypoint_id = ''id+'', appId = ''id'', urlMatcher = ''acme.example.com/*'',
          configuration = None, bundleId = Some ''b1''\<rparr>],
      all_operationLogs =
        [(createApp,
          CreatedApp \<lparr>app_id = ''id'', app_name = ''acme'', app_defaultConfiguration = []\<rparr>),
         (createEntrypoint,
          CreatedEntrypoint
            \<lparr>entrypoint_id = ''id+'', appId = ''id'', urlMatcher = ''acme.example.com/*'',
             configuration = None, bundleId = None\<rparr>),
         (updateEntrypoint,
          UpdatedEntrypoint
            \<lparr>entrypoint_id = ''id+'', appId = ''id'', urlMatcher = ''acme.example.com/*'',
             configuration = None, bundleId = None\<rparr>
            \<lparr>entrypoint_id = ''id+'', appId = ''id'', urlMatcher = ''acme.example.com/*'',
             configuration = None, bundleId = Some ''b1''\<rparr>)],
      nextId = 2\<rparr>"

section \<open>Runs of the handler\<close>

lemma after_simps:
  "outcome_of (after ev r) = outcome_of r"
  "state_of (after ev r) = state_of r"
  "trace_of (after ev r) = ev # trace_of r"
  by (simp_all add: after_def outcome_of_def state_of_def trace_of_def split: prod.splits)

lemma raise_simps:
  "outcome_of (raise e s) = Raised e"
  "state_of (raise e s) = s"
  "trace_of (raise e s) = []"
  by (simp_all add: raise_def outcome_of_def state_of_def trace_of_def)

lemma send_simps:
  "outcome_of (send st b s) = Sent st b"
  "state_of (send st b s) = s"
  "trace_of (send st b s) = []"
  by (simp_all add: send_def outcome_of_def state_of_def trace_of_def)

lemmas run_simps = after_simps raise_simps send_simps

lemma first_rejection_None:
  "(\<And>i. rejected i = None) \<Longrightarrow> first_rejection order rejected = None"
  by (induction order) simp_all

lemma Promise_all_Inr:
  "Promise_all order p q r = Inr (x, y, z) \<longleftrightarrow> p = Inr x \<and> q = Inr y \<and> r = Inr z"
proof
  assume "Promise_all order p q r = Inr (x, y, z)"
  then show "p = Inr x \<and> q = Inr y \<and> r = Inr z"
    by (auto simp add: Promise_all_def split: option.splits sum.splits)
next
  assume "p = Inr x \<and> q = Inr y \<and> r = Inr z"
  then have "rejection p q r i = None" for i
    by (cases i) (simp_all add: rejection_def)
  then have "first_rejection (order @ [First, Second, Third]) (rejection p q r) = None"
    by (rule first_rejection_None)
  with \<open>p = Inr x \<and> q = Inr y \<and> r = Inr z\<close> show "Promise_all order p q r = Inr (x, y, z)"
    by (simp add: Promise_all_def)
qed

lemma lookups_Inr:
  "lookups c body s = Inr (b, a, e) \<longleftrightarrow>
     findLatestByNameTagCombination c (bundleNameTagCombination body) s = Inr b \<and>
     findOneByIdOrName c (appName body) s = Inr a \<and>
     findOneByIdOrUrlMatcher c (entrypointUrlMatcher body) s = Inr e"
  by (simp add: lookups_def Promise_all_Inr)

lemma handler_found:
  "lookups c body s = Inr (Some b, a, e) \<Longrightarrow> \<not> mismatch a e \<Longrightarrow>
     handler c body s = ensure_app c body b a e s"
  by (simp add: handler_def)

text \<open>
  Every run takes one of four ways: a lookup rejects; the bundle is not found; the
  entrypoint does not link to the app; or the deploy goes on with the three records.
\<close>

lemma handler_cases:
  obtains (rejected) f where "lookups c body s = Inl f" "handler c body s = raise (Fault f) s"
  | (no_bundle) a e where "lookups c body s = Inr (None, a, e)"
      "handler c body s = raise (BundleNotFoundError (bundleNameTagCombination body) ''name:tag combination'') s"
  | (conflict) b a e where "lookups c body s = Inr (Some b, a, e)" "mismatch a e"
      "handler c body s = send 409 (Some (Message (conflict_message body))) s"
  | (deploy) b a e where "lookups c body s = Inr (Some b, a, e)" "\<not> mismatch a e"
      "handler c body s = ensure_app c body b a e s"
proof (cases "lookups c body s")
  case (Inl f)
  then show ?thesis using rejected by (simp add: handler_def)
next
  case (Inr t)
  obtain b a e where t: "t = (b, a, e)" by (cases t)
  show ?thesis
  proof (cases b)
    case None
    then show ?thesis using no_bundle Inr t by (simp add: handler_def)
  next
    case (Some b')
    then show ?thesis using conflict [of b' a e] deploy [of b' a e] Inr t
      by (cases "mismatch a e") (simp_all add: handler_def)
  qed
qed

lemma trace_update_entrypoint:
  "trace_of (update_entrypoint c b e s) =
     EntrypointsUpdate (entrypoint_id e) \<lparr>patch_bundleId = bundle_id b\<rparr>
       (fst (entrypoints_update c (entrypoint_id e) \<lparr>patch_bundleId = bundle_id b\<rparr> s)) #
     (case fst (entrypoints_update c (entrypoint_id e) \<lparr>patch_bundleId = bundle_id b\<rparr> s) of
        Inl f \<Rightarrow> []
      | Inr e' \<Rightarrow> [LogOperation updateEntrypoint (UpdatedEntrypoint e e')
          (fst (logOperation c updateEntrypoint (UpdatedEntrypoint e e')
             (snd (entrypoints_update c (entrypoint_id e) \<lparr>patch_bundleId = bundle_id b\<rparr> s))))])"
  by (simp add: update_entrypoint_def run_simps split: prod.splits sum.splits option.splits)

text \<open>
  The state a run ends in is the state its calls leave; no call but the last one raised,
  and when the last one raised the run raises its fault.
\<close>

lemma no_rollback_update:
  "replay c s (trace_of (update_entrypoint c b e s)) = Some (state_of (update_entrypoint c b e s))"
  "ev \<in> set (butlast (trace_of (update_entrypoint c b e s))) \<Longrightarrow> fault_of ev = None"
  "fault_of (last (trace_of (update_entrypoint c b e s))) = Some f \<Longrightarrow>
     outcome_of (update_entrypoint c b e s) = Raised (Fault f)"
  "fault_of (last (trace_of (update_entrypoint c b e s))) = None \<Longrightarrow>
     outcome_of (update_entrypoint c b e s) = Sent 204 None"
  "trace_of (update_entrypoint c b e s) \<noteq> []"
  by (auto simp add: update_entrypoint_def run_simps
        split: prod.splits sum.splits option.splits if_splits)

lemma no_rollback_ensure_entrypoint:
  "replay c s (trace_of (ensure_entrypoint c body b a e s)) = Some (state_of (ensure_entrypoint c body b a e s))"
  "ev \<in> set (butlast (trace_of (ensure_entrypoint c body b a e s))) \<Longrightarrow> fault_of ev = None"
  "fault_of (last (trace_of (ensure_entrypoint c body b a e s))) = Some f \<Longrightarrow>
     outcome_of (ensure_entrypoint c body b a e s) = Raised (Fault f)"
  "fault_of (last (trace_of (ensure_entrypoint c body b a e s))) = None \<Longrightarrow>
     outcome_of (ensure_entrypoint c body b a e s) = Sent 204 None"
  "trace_of (ensure_entrypoint c body b a e s) \<noteq> []"
  by (auto simp add: ensure_entrypoint_def no_rollback_update run_simps
        split: prod.splits sum.splits option.splits if_splits)

lemma no_rollback_ensure_app:
  "replay c s (trace_of (ensure_app c body b a e s)) = Some (state_of (ensure_app c body b a e s))"
  "ev \<in> set (butlast (trace_of (ensure_app c body b a e s))) \<Longrightarrow> fault_of ev = None"
  "fault_of (last (trace_of (ensure_app c body b a e s))) = Some f \<Longrightarrow>
     outcome_of (ensure_app c body b a e s) = Raised (Fault f)"
  "fault_of (last (trace_of (ensure_app c body b a e s))) = None \<Longrightarrow>
     outcome_of (ensure_app c body b a e s) = Sent 204 None"
  "trace_of (ensure_app c body b a e s) \<noteq> []"
  by (auto simp add: ensure_app_def no_rollback_ensure_entrypoint run_simps
        split: prod.splits sum.splits option.splits if_splits)

lemma handler_replay:
  "replay c s (trace_of (handler c body s)) = Some (state_of (handler c body s))"
  by (cases c body s rule: handler_cases) (simp_all add: run_simps no_rollback_ensure_app(1))

text \<open>A run of the update that sends a response: both calls returned.\<close>

lemma update_entrypoint_Sent:
  assumes "outcome_of (update_entrypoint c b e s) = Sent status sent_body"
  obtains e' s1 where
    "entrypoints_update c (entrypoint_id e) \<lparr>patch_bundleId = bundle_id b\<rparr> s = (Inr e', s1)"
    "logOperation c updateEntrypoint (UpdatedEntrypoint e e') s1 =
       (None, state_of (update_entrypoint c b e s))"
    "trace_of (update_entrypoint c b e s) =
       [EntrypointsUpdate (entrypoint_id e) \<lparr>patch_bundleId = bundle_id b\<rparr> (Inr e'),
        LogOperation updateEntrypoint (UpdatedEntrypoint e e') None]"
  using assms
  by (auto simp add: update_entrypoint_def run_simps
        split: prod.splits sum.splits option.splits)

lemma status_update:
  "outcome_of (update_entrypoint c b e s) = Sent status sent_body \<Longrightarrow>
     status = 204 \<and> sent_body = None"
  by (auto simp add: update_entrypoint_def run_simps
        split: prod.splits sum.splits option.splits)

lemma updates_append: "updates pre = [] \<Longrightarrow> updates (pre @ tr) = updates tr"
  by (induction pre rule: updates.induct) simp_all

lemmas memory_defs =
  memory_storage_def mem_findLatestByNameTagCombination_def mem_findOneByIdOrName_def
  mem_findOneByIdOrUrlMatcher_def mem_validateEntrypointUrlMatcher_def mem_apps_create_def
  mem_entrypoints_create_def mem_entrypoints_update_def mem_logOperation_def
  nameTagCombination_def set_bundleId_def

lemmas handler_defs =
  handler_def lookups_def Promise_all_def rejection_def mismatch_def conflict_message_def ensure_app_def
  ensure_entrypoint_def update_entrypoint_def after_def raise_def send_def

lemmas scenario_defs =
  demo_storage_def unary_id_def has_slash_def fresh_store_def conflict_store_def
  deploy_v1_def deploy_v2_def deploy_by_id_def deploy_v3_def deploy_blog_def
  deploy_malformed_def without_log_def deployed_store_def linked_store_def

section \<open>Absent bundle\<close>

text \<open>
  Claim C2. When the three lookups have returned and the bundle lookup returned null,
  the handler raises \<open>BundleNotFoundError\<close>, which carries the name:tag combination of
  the request and the words \<open>name:tag combination\<close>. It makes no call after the lookups
  (the trace is empty: no app is created, no entrypoint is created, no entrypoint is
  updated) and the state is the one it started from.
\<close>

theorem deploy_bundle_not_found:
  assumes "lookups c body s = Inr (None, existingApp, existingEntrypoint)"
  shows "handler c body s =
           (Raised (BundleNotFoundError (bundleNameTagCombination body)
                      ''name:tag combination''), s, [])"
  using assms by (simp add: handler_def raise_def)

text \<open>
  A request for \<open>site:v2\<close> on the store that has \<open>site:v1\<close> only.
\<close>

theorem deploy_bundle_not_found_witness:
  "lookups demo_storage deploy_v2 fresh_store = Inr (None, None, None) \<and>
   handler demo_storage deploy_v2 fresh_store =
     (Raised (BundleNotFoundError ''site:v2'' ''name:tag combination''), fresh_store, [])"
proof -
  have l: "lookups demo_storage deploy_v2 fresh_store = Inr (None, None, None)"
    by (simp add: lookups_Inr memory_defs scenario_defs)
  from deploy_bundle_not_found [OF l] l show ?thesis
    by (simp add: deploy_v2_def)
qed

section \<open>Entrypoint of another app\<close>

text \<open>
  Claim C3. When the bundle exists, an entrypoint is found for the url matcher, and
  either no app is found or the id of the app found differs from the \<open>appId\<close> of the
  entrypoint, the run ends with the response 409 and its message: the response is sent,
  nothing is raised. The handler makes no call after the lookups and the state is the one
  it started from.
\<close>

theorem deploy_conflict:
  assumes "lookups c body s = Inr (Some b, existingApp, Some e)"
    and "existingApp = None \<or> app_id (the existingApp) \<noteq> appId e"
  shows "handler c body s =
           (Sent 409 (Some (Message
              (''Entrypoint with urlMatcher = '' @ entrypointUrlMatcher body @
               [CHR 0xC2, CHR 0xA0] @ ''doesn't link to app with name = '' @
               appName body))),
            s, [])"
  using assms
  by (auto simp add: handler_def send_def mismatch_def conflict_message_def
        split: option.splits)

text \<open>
  The second end-to-end scenario of the spec: the entrypoint belongs to app \<open>a2\<close>, the
  request names app \<open>acme\<close>, whose id is \<open>a1\<close>.
\<close>

theorem deploy_conflict_witness:
  "lookups demo_storage deploy_v2 conflict_store =
     Inr (Some \<lparr>bundle_id = ''b2'', bundle_name = ''site'', bundle_tag = ''v2''\<rparr>,
          Some \<lparr>app_id = ''a1'', app_name = ''acme'', app_defaultConfiguration = []\<rparr>,
          Some \<lparr>entrypoint_id = ''e1'', appId = ''a2'', urlMatcher = ''acme.example.com/*'',
                configuration = None, bundleId = None\<rparr>) \<and>
   ''a1'' \<noteq> ''a2'' \<and>
   handler demo_storage deploy_v2 conflict_store =
     (Sent 409 (Some (Message
        (''Entrypoint with urlMatcher = acme.example.com/*'' @ [CHR 0xC2, CHR 0xA0] @
         ''doesn't link to app with name = acme''))),
      conflict_store, [])"
proof -
  have l: "lookups demo_storage deploy_v2 conflict_store =
     Inr (Some \<lparr>bundle_id = ''b2'', bundle_name = ''site'', bundle_tag = ''v2''\<rparr>,
          Some \<lparr>app_id = ''a1'', app_name = ''acme'', app_defaultConfiguration = []\<rparr>,
          Some \<lparr>entrypoint_id = ''e1'', appId = ''a2'', urlMatcher = ''acme.example.com/*'',
                configuration = None, bundleId = None\<rparr>)"
    by (simp add: lookups_Inr memory_defs scenario_defs)
  from deploy_conflict [OF l] l show ?thesis
    by (simp add: deploy_v2_def)
qed

section \<open>Validation before creation\<close>

lemma validated_creates_update:
  "validated_creates v (trace_of (update_entrypoint c b e s))"
  by (simp add: trace_update_entrypoint split: sum.splits)

lemma validated_creates_ensure_entrypoint:
  "validated_creates v (trace_of (ensure_entrypoint c body b a e s))"
  by (simp add: ensure_entrypoint_def run_simps validated_creates_update
        split: prod.splits sum.splits option.splits)

lemma validated_creates_ensure_app:
  "validated_creates False (trace_of (ensure_app c body b a e s))"
  by (simp add: ensure_app_def run_simps validated_creates_ensure_entrypoint
        split: prod.splits sum.splits option.splits)

text \<open>
  Claim C4, as the code has it. In every run, each call of \<open>storage.apps.create\<close> comes
  after a call of \<open>validateEntrypointUrlMatcher\<close> that passed. When the bundle exists, no
  app is found, no entrypoint is found and the url matcher fails the validation, the
  handler raises the error of the validation; the validation is the only call it makes,
  so no app is created, and the state is the one it started from.
\<close>

theorem deploy_invalid_matcher:
  "validated_creates False (trace_of (handler c body s)) \<and>
   (lookups c body s = Inr (Some b, None, None) \<and>
    validateEntrypointUrlMatcher c (entrypointUrlMatcher body) = Some f \<longrightarrow>
      handler c body s =
        (Raised (Fault f), s, [ValidateUrlMatcher (entrypointUrlMatcher body) (Some f)]))"
proof
  show "validated_creates False (trace_of (handler c body s))"
    by (cases c body s rule: handler_cases)
       (simp_all add: run_simps validated_creates_ensure_app)
  show "lookups c body s = Inr (Some b, None, None) \<and>
    validateEntrypointUrlMatcher c (entrypointUrlMatcher body) = Some f \<longrightarrow>
      handler c body s =
        (Raised (Fault f), s, [ValidateUrlMatcher (entrypointUrlMatcher body) (Some f)])"
    by (simp add: handler_def mismatch_def ensure_app_def after_def raise_def)
qed

text \<open>
  Without the condition on the entrypoint the claim fails: the bundle exists, no app is
  found for \<open>acne\<close>, the url matcher \<open>e1\<close> is not well formed, and yet the run ends
  with the 409, since \<open>e1\<close> is the id of an entrypoint and the lookup is by id or url
  matcher. No validation error is raised.
\<close>

theorem deploy_invalid_matcher_counterexample:
  "lookups demo_storage deploy_by_id conflict_store =
     Inr (Some \<lparr>bundle_id = ''b2'', bundle_name = ''site'', bundle_tag = ''v2''\<rparr>,
          None,
          Some \<lparr>entrypoint_id = ''e1'', appId = ''a2'', urlMatcher = ''acme.example.com/*'',
                configuration = None, bundleId = None\<rparr>) \<and>
   validateEntrypointUrlMatcher demo_storage (entrypointUrlMatcher deploy_by_id) =
     Some (InvalidUrlMatcher ''e1'') \<and>
   handler demo_storage deploy_by_id conflict_store =
     (Sent 409 (Some (Message
        (''Entrypoint with urlMatcher = e1'' @ [CHR 0xC2, CHR 0xA0] @
         ''doesn't link to app with name = acne''))),
      conflict_store, [])"
  by (simp add: handler_defs memory_defs scenario_defs)

text \<open>
  A malformed url matcher for an app and an entrypoint that do not exist.
\<close>

theorem deploy_invalid_matcher_witness:
  "lookups demo_storage deploy_malformed fresh_store =
     Inr (Some \<lparr>bundle_id = ''b1'', bundle_name = ''site'', bundle_tag = ''v1''\<rparr>,
          None, None) \<and>
   validateEntrypointUrlMatcher demo_storage (entrypointUrlMatcher deploy_malformed) =
     Some (InvalidUrlMatcher ''acme'') \<and>
   handler demo_storage deploy_malformed fresh_store =
     (Raised (Fault (InvalidUrlMatcher ''acme'')), fresh_store,
      [ValidateUrlMatcher ''acme'' (Some (InvalidUrlMatcher ''acme''))])"
proof -
  have l: "lookups demo_storage deploy_malformed fresh_store =
     Inr (Some \<lparr>bundle_id = ''b1'', bundle_name = ''site'', bundle_tag = ''v1''\<rparr>,
          None, None)"
    by (simp add: lookups_Inr memory_defs scenario_defs)
  have v: "validateEntrypointUrlMatcher demo_storage (entrypointUrlMatcher deploy_malformed) =
     Some (InvalidUrlMatcher ''acme'')"
    by (simp add: memory_defs scenario_defs)
  from deploy_invalid_matcher
         [of demo_storage deploy_malformed fresh_store
             "\<lparr>bundle_id = ''b1'', bundle_name = ''site'', bundle_tag = ''v1''\<rparr>"
             "InvalidUrlMatcher ''acme''"] l v
  show ?thesis
    by (simp add: deploy_malformed_def)
qed

section \<open>Creation of the app and of the entrypoint\<close>

text \<open>
  Claim C5. When the bundle exists, no app and no entrypoint are found and the url
  matcher is valid, the handler validates the url matcher and then calls
  \<open>storage.apps.create\<close> on the storage, with the name of the request and an empty
  default configuration. When that call returns an app and the log of it returns, the
  next call is \<open>storage.entrypoints.create\<close>, made in the state these two calls left,
  with the id of the created app as \<open>appId\<close>, the url matcher of the request and a null
  configuration; no bundle is passed, so that the entrypoint has none until the update.
  When the entrypoint is created and logged too, the rest of the run starts from the
  state in which both records have been created. In every case the state the run ends
  in is the state its calls leave, each call returning what the trace says.
\<close>

theorem deploy_creates_app_then_entrypoint:
  assumes "lookups c body s = Inr (Some b, None, None)"
    and "validateEntrypointUrlMatcher c (entrypointUrlMatcher body) = None"
  shows "replay c s (trace_of (handler c body s)) = Some (state_of (handler c body s)) \<and>
         (\<exists>rest. trace_of (handler c body s) =
            ValidateUrlMatcher (entrypointUrlMatcher body) None #
            AppsCreate \<lparr>new_name = appName body, new_defaultConfiguration = []\<rparr>
              (fst (apps_create c
                 \<lparr>new_name = appName body, new_defaultConfiguration = []\<rparr> s)) # rest) \<and>
         (\<forall>a s1 s2.
            apps_create c \<lparr>new_name = appName body, new_defaultConfiguration = []\<rparr> s =
              (Inr a, s1) \<and>
            logOperation c createApp (CreatedApp a) s1 = (None, s2) \<longrightarrow>
            (\<exists>rest. trace_of (handler c body s) =
               ValidateUrlMatcher (entrypointUrlMatcher body) None #
               AppsCreate \<lparr>new_name = appName body, new_defaultConfiguration = []\<rparr> (Inr a) #
               LogOperation createApp (CreatedApp a) None #
               EntrypointsCreate
                 \<lparr>new_appId = app_id a, new_urlMatcher = entrypointUrlMatcher body,
                  new_configuration = None\<rparr>
                 (fst (entrypoints_create c
                    \<lparr>new_appId = app_id a, new_urlMatcher = entrypointUrlMatcher body,
                     new_configuration = None\<rparr> s2)) # rest)) \<and>
         (\<forall>a s1 s2 e s3 s4.
            apps_create c \<lparr>new_name = appName body, new_defaultConfiguration = []\<rparr> s =
              (Inr a, s1) \<and>
            logOperation c createApp (CreatedApp a) s1 = (None, s2) \<and>
            entrypoints_create c
              \<lparr>new_appId = app_id a, new_urlMatcher = entrypointUrlMatcher body,
               new_configuration = None\<rparr> s2 = (Inr e, s3) \<and>
            logOperation c createEntrypoint (CreatedEntrypoint e) s3 = (None, s4) \<longrightarrow>
            (\<exists>rest. trace_of (handler c body s) =
               [ValidateUrlMatcher (entrypointUrlMatcher body) None,
                AppsCreate \<lparr>new_name = appName body, new_defaultConfiguration = []\<rparr> (Inr a),
                LogOperation createApp (CreatedApp a) None,
                EntrypointsCreate
                  \<lparr>new_appId = app_id a, new_urlMatcher = entrypointUrlMatcher body,
                   new_configuration = None\<rparr> (Inr e),
                LogOperation createEntrypoint (CreatedEntrypoint e) None] @ rest \<and>
               replay c s4 rest = Some (state_of (handler c body s))))"
proof -
  have h: "handler c body s = ensure_app c body b None None s"
    using assms(1) by (simp add: handler_found mismatch_def)
  have "replay c s (trace_of (handler c body s)) = Some (state_of (handler c body s))"
    by (rule handler_replay)
  then show ?thesis
    unfolding h using assms(2)
    by (simp add: ensure_app_def ensure_entrypoint_def run_simps no_rollback_update(1)
          split: prod.splits sum.splits option.splits)
qed

text \<open>
  The first end-to-end scenario of the spec, on the in-memory storage: after the two
  creations and their logs the store holds the app and the entrypoint, which has a null
  \<open>bundleId\<close>; at the end of the run both are still there, the entrypoint with the
  bundle.
\<close>

theorem deploy_creates_app_then_entrypoint_witness:
  "lookups demo_storage deploy_v1 fresh_store =
     Inr (Some \<lparr>bundle_id = ''b1'', bundle_name = ''site'', bundle_tag = ''v1''\<rparr>,
          None, None) \<and>
   validateEntrypointUrlMatcher demo_storage (entrypointUrlMatcher deploy_v1) = None \<and>
   take 5 (trace_of (handler demo_storage deploy_v1 fresh_store)) =
     [ValidateUrlMatcher ''acme.example.com/*'' None,
      AppsCreate \<lparr>new_name = ''acme'', new_defaultConfiguration = []\<rparr>
        (Inr \<lparr>app_id = ''id'', app_name = ''acme'', app_defaultConfiguration = []\<rparr>),
      LogOperation createApp
        (CreatedApp \<lparr>app_id = ''id'', app_name = ''acme'', app_defaultConfiguration = []\<rparr>)
        None,
      EntrypointsCreate
        \<lparr>new_appId = ''id'', new_urlMatcher = ''acme.example.com/*'',
         new_configuration = None\<rparr>
        (Inr \<lparr>entrypoint_id = ''id+'', appId = ''id'', urlMatcher = ''acme.example.com/*'',
               configuration = None, bundleId = None\<rparr>),
      LogOperation createEntrypoint
        (CreatedEntrypoint
           \<lparr>entrypoint_id = ''id+'', appId = ''id'', urlMatcher = ''acme.example.com/*'',
            configuration = None, bundleId = None\<rparr>)
        None] \<and>
   replay demo_storage fresh_store
     (take 5 (trace_of (handler demo_storage deploy_v1 fresh_store))) =
     Some (fresh_store
       \<lparr>all_apps := [\<lparr>app_id = ''id'', app_name = ''acme'', app_defaultConfiguration = []\<rparr>],
        all_entrypoints :=
          [\<lparr>entrypoint_id = ''id+'', appId = ''id'', urlMatcher = ''acme.example.com/*'',
            configuration = None, bundleId = None\<rparr>],
        all_operationLogs :=
          [(createApp,
            CreatedApp \<lparr>app_id = ''id'', app_name = ''acme'', app_defaultConfiguration = []\<rparr>),
           (createEntrypoint,
            CreatedEntrypoint
              \<lparr>entrypoint_id = ''id+'', appId = ''id'', urlMatcher = ''acme.example.com/*'',
               configuration = None, bundleId = None\<rparr>)],
        nextId := 2\<rparr>) \<and>
   all_apps (state_of (handler demo_storage deploy_v1 fresh_store)) =
     [\<lparr>app_id = ''id'', app_name = ''acme'', app_defaultConfiguration = []\<rparr>] \<and>
   all_entrypoints (state_of (handler demo_storage deploy_v1 fresh_store)) =
     [\<lparr>entrypoint_id = ''id+'', appId = ''id'', urlMatcher = ''acme.example.com/*'',
       configuration = None, bundleId = Some ''b1''\<rparr>]"
proof -
  have l: "lookups demo_storage deploy_v1 fresh_store =
     Inr (Some \<lparr>bundle_id = ''b1'', bundle_name = ''site'', bundle_tag = ''v1''\<rparr>,
          None, None)"
    by (simp add: lookups_Inr memory_defs scenario_defs)
  have v: "validateEntrypointUrlMatcher demo_storage (entrypointUrlMatcher deploy_v1) = None"
    by (simp add: memory_defs scenario_defs)
  from deploy_creates_app_then_entrypoint [OF l v] l v show ?thesis
    by (simp add: handler_defs memory_defs scenario_defs trace_of_def state_of_def)
qed

section \<open>The update\<close>

lemma sent_create_entrypoint:
  assumes "outcome_of (ensure_entrypoint c body b a None s) = Sent status sent_body"
  obtains entrypoint newEntrypoint s0 s1 pre where
    "status = 204" and "sent_body = None"
    and "\<exists>i. EntrypointsCreate i (Inr entrypoint) \<in> set pre"
    and "updates pre = []" and "replay c s pre = Some s0"
    and "entrypoints_update c (entrypoint_id entrypoint)
           \<lparr>patch_bundleId = bundle_id b\<rparr> s0 = (Inr newEntrypoint, s1)"
    and "logOperation c updateEntrypoint (UpdatedEntrypoint entrypoint newEntrypoint) s1 =
           (None, state_of (ensure_entrypoint c body b a None s))"
    and "trace_of (ensure_entrypoint c body b a None s) =
           pre @
           [EntrypointsUpdate (entrypoint_id entrypoint) \<lparr>patch_bundleId = bundle_id b\<rparr>
              (Inr newEntrypoint),
            LogOperation updateEntrypoint (UpdatedEntrypoint entrypoint newEntrypoint) None]"
proof -
  let ?i = "\<lparr>new_appId = app_id a, new_urlMatcher = entrypointUrlMatcher body,
             new_configuration = None\<rparr>"
  from assms obtain e s1 s2 where
    cr: "entrypoints_create c ?i s = (Inr e, s1)"
    and lg: "logOperation c createEntrypoint (CreatedEntrypoint e) s1 = (None, s2)"
    and run: "ensure_entrypoint c body b a None s =
            after (EntrypointsCreate ?i (Inr e))
              (after (LogOperation createEntrypoint (CreatedEntrypoint e) None)
                 (update_entrypoint c b e s2))"
    by (auto simp add: ensure_entrypoint_def run_simps
          split: prod.splits sum.splits option.splits)
  from assms have sent: "outcome_of (update_entrypoint c b e s2) = Sent status sent_body"
    by (simp add: run run_simps)
  from sent obtain e' s3 where
    u: "entrypoints_update c (entrypoint_id e) \<lparr>patch_bundleId = bundle_id b\<rparr> s2 =
          (Inr e', s3)"
    and l: "logOperation c updateEntrypoint (UpdatedEntrypoint e e') s3 =
          (None, state_of (update_entrypoint c b e s2))"
    and t: "trace_of (update_entrypoint c b e s2) =
       [EntrypointsUpdate (entrypoint_id e) \<lparr>patch_bundleId = bundle_id b\<rparr> (Inr e'),
        LogOperation updateEntrypoint (UpdatedEntrypoint e e') None]"
    by (rule update_entrypoint_Sent)
  show thesis
  proof (rule that [of e "[EntrypointsCreate ?i (Inr e),
                           LogOperation createEntrypoint (CreatedEntrypoint e) None]" s2 e' s3])
    show "status = 204" and "sent_body = None"
      using status_update [OF sent] by simp_all
    show "\<exists>i. EntrypointsCreate i (Inr e) \<in>
            set [EntrypointsCreate ?i (Inr e),
                 LogOperation createEntrypoint (CreatedEntrypoint e) None]"
      by (rule exI [of _ ?i]) simp
    show "updates [EntrypointsCreate ?i (Inr e),
                   LogOperation createEntrypoint (CreatedEntrypoint e) None] = []"
      by simp
    show "replay c s [EntrypointsCreate ?i (Inr e),
                      LogOperation createEntrypoint (CreatedEntrypoint e) None] = Some s2"
      using cr lg by simp
    show "entrypoints_update c (entrypoint_id e) \<lparr>patch_bundleId = bundle_id b\<rparr> s2 =
            (Inr e', s3)"
      by (rule u)
    show "logOperation c updateEntrypoint (UpdatedEntrypoint e e') s3 =
            (None, state_of (ensure_entrypoint c body b a None s))"
      using l by (simp add: run run_simps)
    show "trace_of (ensure_entrypoint c body b a None s) =
            [EntrypointsCreate ?i (Inr e),
             LogOperation createEntrypoint (CreatedEntrypoint e) None] @
            [EntrypointsUpdate (entrypoint_id e) \<lparr>patch_bundleId = bundle_id b\<rparr> (Inr e'),
             LogOperation updateEntrypoint (UpdatedEntrypoint e e') None]"
      using t by (simp add: run run_simps)
  qed
qed

lemma sent_create_app:
  assumes "outcome_of (ensure_app c body b None None s) = Sent status sent_body"
  obtains entrypoint newEntrypoint s0 s1 pre where
    "status = 204" and "sent_body = None"
    and "\<exists>i. EntrypointsCreate i (Inr entrypoint) \<in> set pre"
    and "updates pre = []" and "replay c s pre = Some s0"
    and "entrypoints_update c (entrypoint_id entrypoint)
           \<lparr>patch_bundleId = bundle_id b\<rparr> s0 = (Inr newEntrypoint, s1)"
    and "logOperation c updateEntrypoint (UpdatedEntrypoint entrypoint newEntrypoint) s1 =
           (None, state_of (ensure_app c body b None None s))"
    and "trace_of (ensure_app c body b None None s) =
           pre @
           [EntrypointsUpdate (entrypoint_id entrypoint) \<lparr>patch_bundleId = bundle_id b\<rparr>
              (Inr newEntrypoint),
            LogOperation updateEntrypoint (UpdatedEntrypoint entrypoint newEntrypoint) None]"
proof -
  let ?i = "\<lparr>new_name = appName body, new_defaultConfiguration = []\<rparr>"
  from assms obtain a s1 s2 where
    v: "validateEntrypointUrlMatcher c (entrypointUrlMatcher body) = None"
    and cr: "apps_create c ?i s = (Inr a, s1)"
    and lg: "logOperation c createApp (CreatedApp a) s1 = (None, s2)"
    and run: "ensure_app c body b None None s =
            after (ValidateUrlMatcher (entrypointUrlMatcher body) None)
              (after (AppsCreate ?i (Inr a))
                 (after (LogOperation createApp (CreatedApp a) None)
                    (ensure_entrypoint c body b a None s2)))"
    by (auto simp add: ensure_app_def run_simps
          split: prod.splits sum.splits option.splits)
  from assms have "outcome_of (ensure_entrypoint c body b a None s2) = Sent status sent_body"
    by (simp add: run run_simps)
  then obtain entrypoint newEntrypoint s0 s3 pre where
    st: "status = 204" "sent_body = None"
    and p1: "\<exists>i. EntrypointsCreate i (Inr entrypoint) \<in> set pre"
    and p2: "updates pre = []"
    and p3: "replay c s2 pre = Some s0"
    and u: "entrypoints_update c (entrypoint_id entrypoint)
              \<lparr>patch_bundleId = bundle_id b\<rparr> s0 = (Inr newEntrypoint, s3)"
    and l: "logOperation c updateEntrypoint (UpdatedEntrypoint entrypoint newEntrypoint) s3 =
              (None, state_of (ensure_entrypoint c body b a None s2))"
    and t: "trace_of (ensure_entrypoint c body b a None s2) =
              pre @
              [EntrypointsUpdate (entrypoint_id entrypoint) \<lparr>patch_bundleId = bundle_id b\<rparr>
                 (Inr newEntrypoint),
               LogOperation updateEntrypoint (UpdatedEntrypoint entrypoint newEntrypoint)
                 None]"
    by (rule sent_create_entrypoint)
  let ?pre = "ValidateUrlMatcher (entrypointUrlMatcher body) None #
              AppsCreate ?i (Inr a) # LogOperation createApp (CreatedApp a) None # pre"
  show thesis
  proof (rule that [of entrypoint ?pre s0 newEntrypoint s3])
    show "status = 204" and "sent_body = None" by (rule st)+
    from p1 obtain i where "EntrypointsCreate i (Inr entrypoint) \<in> set pre" ..
    then have "EntrypointsCreate i (Inr entrypoint) \<in> set ?pre" by simp
    then show "\<exists>i. EntrypointsCreate i (Inr entrypoint) \<in> set ?pre" ..
    show "updates ?pre = []" using p2 by simp
    show "replay c s ?pre = Some s0" using v cr lg p3 by simp
    show "entrypoints_update c (entrypoint_id entrypoint)
              \<lparr>patch_bundleId = bundle_id b\<rparr> s0 = (Inr newEntrypoint, s3)"
      by (rule u)
    show "logOperation c updateEntrypoint (UpdatedEntrypoint entrypoint newEntrypoint) s3 =
            (None, state_of (ensure_app c body b None None s))"
      using l by (simp add: run run_simps)
    show "trace_of (ensure_app c body b None None s) =
            ?pre @
            [EntrypointsUpdate (entrypoint_id entrypoint) \<lparr>patch_bundleId = bundle_id b\<rparr>
               (Inr newEntrypoint),
             LogOperation updateEntrypoint (UpdatedEntrypoint entrypoint newEntrypoint) None]"
      using t by (simp add: run run_simps)
  qed
qed

text \<open>
  A run that sends a response other than the 409 ends with the update and its log, made
  on the storage from the state the calls before them left.
\<close>

lemma handler_Sent:
  assumes "outcome_of (handler c body s) = Sent status sent_body" and "status \<noteq> 409"
  obtains found existingApp existingEntrypoint entrypoint newEntrypoint s0 s1 pre where
    "status = 204" and "sent_body = None"
    and "lookups c body s = Inr (Some found, existingApp, existingEntrypoint)"
    and "existingEntrypoint = Some entrypoint \<and> pre = [] \<and> s0 = s \<or>
         existingEntrypoint = None \<and> (\<exists>i. EntrypointsCreate i (Inr entrypoint) \<in> set pre)"
    and "updates pre = []" and "replay c s pre = Some s0"
    and "entrypoints_update c (entrypoint_id entrypoint)
           \<lparr>patch_bundleId = bundle_id found\<rparr> s0 = (Inr newEntrypoint, s1)"
    and "logOperation c updateEntrypoint (UpdatedEntrypoint entrypoint newEntrypoint) s1 =
           (None, state_of (handler c body s))"
    and "trace_of (handler c body s) =
           pre @
           [EntrypointsUpdate (entrypoint_id entrypoint)
              \<lparr>patch_bundleId = bundle_id found\<rparr> (Inr newEntrypoint),
            LogOperation updateEntrypoint (UpdatedEntrypoint entrypoint newEntrypoint) None]"
proof (cases c body s rule: handler_cases)
  case (rejected f)
  then show ?thesis using assms by (simp add: run_simps)
next
  case (no_bundle a e)
  then show ?thesis using assms by (simp add: run_simps)
next
  case (conflict b a e)
  then show ?thesis using assms by (simp add: run_simps)
next
  case (deploy b a e)
  show ?thesis
  proof (cases e)
    case (Some entrypoint)
    with deploy(2) obtain app where a: "a = Some app"
      by (cases a) (simp_all add: mismatch_def)
    have h: "handler c body s = update_entrypoint c b entrypoint s"
      by (simp add: deploy(3) Some a ensure_app_def ensure_entrypoint_def)
    from assms(1) have sent: "outcome_of (update_entrypoint c b entrypoint s) =
        Sent status sent_body"
      by (simp add: h)
    from sent obtain e' s1 where
      u: "entrypoints_update c (entrypoint_id entrypoint) \<lparr>patch_bundleId = bundle_id b\<rparr> s =
          (Inr e', s1)"
      and l: "logOperation c updateEntrypoint (UpdatedEntrypoint entrypoint e') s1 =
          (None, state_of (update_entrypoint c b entrypoint s))"
      and t: "trace_of (update_entrypoint c b entrypoint s) =
         [EntrypointsUpdate (entrypoint_id entrypoint) \<lparr>patch_bundleId = bundle_id b\<rparr>
            (Inr e'),
          LogOperation updateEntrypoint (UpdatedEntrypoint entrypoint e') None]"
      by (rule update_entrypoint_Sent)
    show ?thesis
    proof (rule that [of b a e entrypoint "[]" s e' s1])
      show "status = 204" and "sent_body = None"
        using status_update [OF sent] by simp_all
      show "lookups c body s = Inr (Some b, a, e)" by (rule deploy(1))
      show "e = Some entrypoint \<and> [] = [] \<and> s = s \<or>
            e = None \<and> (\<exists>i. EntrypointsCreate i (Inr entrypoint) \<in> set [])"
        using Some by simp
      show "updates [] = []" by simp
      show "replay c s [] = Some s" by simp
      show "entrypoints_update c (entrypoint_id entrypoint)
              \<lparr>patch_bundleId = bundle_id b\<rparr> s = (Inr e', s1)"
        by (rule u)
      show "logOperation c updateEntrypoint (UpdatedEntrypoint entrypoint e') s1 =
              (None, state_of (handler c body s))"
        using l by (simp add: h)
      show "trace_of (handler c body s) =
              [] @
              [EntrypointsUpdate (entrypoint_id entrypoint) \<lparr>patch_bundleId = bundle_id b\<rparr>
                 (Inr e'),
               LogOperation updateEntrypoint (UpdatedEntrypoint entrypoint e') None]"
        using t by (simp add: h)
    qed
  next
    case None
    show ?thesis
    proof (cases a)
      case (Some app)
      have h: "handler c body s = ensure_entrypoint c body b app None s"
        by (simp add: deploy(3) Some None ensure_app_def)
      from assms(1) have "outcome_of (ensure_entrypoint c body b app None s) =
          Sent status sent_body"
        by (simp add: h)
      then obtain entrypoint newEntrypoint s0 s1 pre where
        "status = 204" "sent_body = None"
        "\<exists>i. EntrypointsCreate i (Inr entrypoint) \<in> set pre"
        "updates pre = []" "replay c s pre = Some s0"
        "entrypoints_update c (entrypoint_id entrypoint)
           \<lparr>patch_bundleId = bundle_id b\<rparr> s0 = (Inr newEntrypoint, s1)"
        "logOperation c updateEntrypoint (UpdatedEntrypoint entrypoint newEntrypoint) s1 =
           (None, state_of (ensure_entrypoint c body b app None s))"
        "trace_of (ensure_entrypoint c body b app None s) =
           pre @
           [EntrypointsUpdate (entrypoint_id entrypoint) \<lparr>patch_bundleId = bundle_id b\<rparr>
              (Inr newEntrypoint),
            LogOperation updateEntrypoint (UpdatedEntrypoint entrypoint newEntrypoint) None]"
        by (rule sent_create_entrypoint)
      then show ?thesis
        using deploy(1) None
        by (intro that [of b a e entrypoint pre s0 newEntrypoint s1]) (simp_all add: h)
    next
      case a: None
      have h: "handler c body s = ensure_app c body b None None s"
        by (simp add: deploy(3) a None)
      from assms(1) have "outcome_of (ensure_app c body b None None s) =
          Sent status sent_body"
        by (simp add: h)
      then obtain entrypoint newEntrypoint s0 s1 pre where
        "status = 204" "sent_body = None"
        "\<exists>i. EntrypointsCreate i (Inr entrypoint) \<in> set pre"
        "updates pre = []" "replay c s pre = Some s0"
        "entrypoints_update c (entrypoint_id entrypoint)
           \<lparr>patch_bundleId = bundle_id b\<rparr> s0 = (Inr newEntrypoint, s1)"
        "logOperation c updateEntrypoint (UpdatedEntrypoint entrypoint newEntrypoint) s1 =
           (None, state_of (ensure_app c body b None None s))"
        "trace_of (ensure_app c body b None None s) =
           pre @
           [EntrypointsUpdate (entrypoint_id entrypoint) \<lparr>patch_bundleId = bundle_id b\<rparr>
              (Inr newEntrypoint),
            LogOperation updateEntrypoint (UpdatedEntrypoint entrypoint newEntrypoint) None]"
        by (rule sent_create_app)
      then show ?thesis
        using deploy(1) None
        by (intro that [of b a e entrypoint pre s0 newEntrypoint s1]) (simp_all add: h)
    qed
  qed
qed

text \<open>
  Claim C6. A run that sends a response other than the 409 sends 204 with no body. It
  has made exactly one call of \<open>storage.entrypoints.update\<close>, which returned: on the
  id of the entrypoint found by the lookup or, when none was found, of the entrypoint the
  run created, with a patch whose only field is \<open>bundleId\<close>, the id of the bundle found.
  The call was made on the storage, in the state the calls before it left (the initial
  state when the entrypoint was found); the log of the update, with the entrypoint the
  handler held and the one the update returned, is the last call, and the state it
  leaves is the state the run ends in.
\<close>

theorem deploy_success_updates_bundleId:
  assumes "outcome_of (handler c body s) = Sent status sent_body" and "status \<noteq> 409"
  shows "status = 204 \<and> sent_body = None \<and>
         replay c s (trace_of (handler c body s)) = Some (state_of (handler c body s)) \<and>
         (\<exists>bundle existingApp existingEntrypoint entrypoint newEntrypoint s0 s1 pre.
            lookups c body s = Inr (Some bundle, existingApp, existingEntrypoint) \<and>
            (existingEntrypoint = Some entrypoint \<and> pre = [] \<and> s0 = s \<or>
             existingEntrypoint = None \<and>
             (\<exists>i. EntrypointsCreate i (Inr entrypoint) \<in> set pre)) \<and>
            updates pre = [] \<and> replay c s pre = Some s0 \<and>
            entrypoints_update c (entrypoint_id entrypoint)
              \<lparr>patch_bundleId = bundle_id bundle\<rparr> s0 = (Inr newEntrypoint, s1) \<and>
            logOperation c updateEntrypoint (UpdatedEntrypoint entrypoint newEntrypoint) s1 =
              (None, state_of (handler c body s)) \<and>
            trace_of (handler c body s) =
              pre @
              [EntrypointsUpdate (entrypoint_id entrypoint)
                 \<lparr>patch_bundleId = bundle_id bundle\<rparr> (Inr newEntrypoint),
               LogOperation updateEntrypoint (UpdatedEntrypoint entrypoint newEntrypoint)
                 None] \<and>
            updates (trace_of (handler c body s)) =
              [(entrypoint_id entrypoint, \<lparr>patch_bundleId = bundle_id bundle\<rparr>,
                Inr newEntrypoint)])"
proof -
  from assms obtain found existingApp existingEntrypoint entrypoint newEntrypoint s0 s1 pre
    where st: "status = 204" "sent_body = None"
    and l: "lookups c body s = Inr (Some found, existingApp, existingEntrypoint)"
    and r: "existingEntrypoint = Some entrypoint \<and> pre = [] \<and> s0 = s \<or>
         existingEntrypoint = None \<and> (\<exists>i. EntrypointsCreate i (Inr entrypoint) \<in> set pre)"
    and p: "updates pre = []" "replay c s pre = Some s0"
    and u: "entrypoints_update c (entrypoint_id entrypoint)
           \<lparr>patch_bundleId = bundle_id found\<rparr> s0 = (Inr newEntrypoint, s1)"
    and g: "logOperation c updateEntrypoint (UpdatedEntrypoint entrypoint newEntrypoint) s1 =
           (None, state_of (handler c body s))"
    and t: "trace_of (handler c body s) =
           pre @
           [EntrypointsUpdate (entrypoint_id entrypoint)
              \<lparr>patch_bundleId = bundle_id found\<rparr> (Inr newEntrypoint),
            LogOperation updateEntrypoint (UpdatedEntrypoint entrypoint newEntrypoint) None]"
    by (rule handler_Sent)
  have us: "updates (trace_of (handler c body s)) =
              [(entrypoint_id entrypoint, \<lparr>patch_bundleId = bundle_id found\<rparr>,
                Inr newEntrypoint)]"
    by (simp add: t updates_append [OF p(1)])
  have "lookups c body s = Inr (Some found, existingApp, existingEntrypoint) \<and>
            (existingEntrypoint = Some entrypoint \<and> pre = [] \<and> s0 = s \<or>
             existingEntrypoint = None \<and>
             (\<exists>i. EntrypointsCreate i (Inr entrypoint) \<in> set pre)) \<and>
            updates pre = [] \<and> replay c s pre = Some s0 \<and>
            entrypoints_update c (entrypoint_id entrypoint)
              \<lparr>patch_bundleId = bundle_id found\<rparr> s0 = (Inr newEntrypoint, s1) \<and>
            logOperation c updateEntrypoint (UpdatedEntrypoint entrypoint newEntrypoint) s1 =
              (None, state_of (handler c body s)) \<and>
            trace_of (handler c body s) =
              pre @
              [EntrypointsUpdate (entrypoint_id entrypoint)
                 \<lparr>patch_bundleId = bundle_id found\<rparr> (Inr newEntrypoint),
               LogOperation updateEntrypoint (UpdatedEntrypoint entrypoint newEntrypoint)
                 None] \<and>
            updates (trace_of (handler c body s)) =
              [(entrypoint_id entrypoint, \<lparr>patch_bundleId = bundle_id found\<rparr>,
                Inr newEntrypoint)]"
    using l r p u g t us by (intro conjI)
  then have ex: "\<exists>bundle existingApp existingEntrypoint entrypoint newEntrypoint s0 s1 pre.
            lookups c body s = Inr (Some bundle, existingApp, existingEntrypoint) \<and>
            (existingEntrypoint = Some entrypoint \<and> pre = [] \<and> s0 = s \<or>
             existingEntrypoint = None \<and>
             (\<exists>i. EntrypointsCreate i (Inr entrypoint) \<in> set pre)) \<and>
            updates pre = [] \<and> replay c s pre = Some s0 \<and>
            entrypoints_update c (entrypoint_id entrypoint)
              \<lparr>patch_bundleId = bundle_id bundle\<rparr> s0 = (Inr newEntrypoint, s1) \<and>
            logOperation c updateEntrypoint (UpdatedEntrypoint entrypoint newEntrypoint) s1 =
              (None, state_of (handler c body s)) \<and>
            trace_of (handler c body s) =
              pre @
              [EntrypointsUpdate (entrypoint_id entrypoint)
                 \<lparr>patch_bundleId = bundle_id bundle\<rparr> (Inr newEntrypoint),
               LogOperation updateEntrypoint (UpdatedEntrypoint entrypoint newEntrypoint)
                 None] \<and>
            updates (trace_of (handler c body s)) =
              [(entrypoint_id entrypoint, \<lparr>patch_bundleId = bundle_id bundle\<rparr>,
                Inr newEntrypoint)]"
    by (intro exI)
  have rp: "replay c s (trace_of (handler c body s)) = Some (state_of (handler c body s))"
    by (rule handler_replay)
  from st rp ex show ?thesis by (intro conjI)
qed

text \<open>
  A redeploy on the in-memory storage: the entrypoint exists, with a configuration of its
  own and bundle \<open>b1\<close>. After the run the stored entrypoint has bundle \<open>b2\<close> and is
  otherwise as it was (id, app, url matcher, configuration); the other entrypoint, the
  app and the bundles are as they were.
\<close>

theorem deploy_success_updates_bundleId_witness:
  "handler demo_storage deploy_v2 linked_store =
     (Sent 204 None,
      linked_store
        \<lparr>all_entrypoints :=
           [\<lparr>entrypoint_id = ''e1'', appId = ''a1'', urlMatcher = ''acme.example.com/*'',
             configuration = Some [(''API_URL'', ''/api'')], bundleId = Some ''b2''\<rparr>,
            \<lparr>entrypoint_id = ''e2'', appId = ''a1'', urlMatcher = ''acme.example.com/docs/'',
             configuration = None, bundleId = Some ''b1''\<rparr>],
         all_operationLogs :=
           [(updateEntrypoint,
             UpdatedEntrypoint
               \<lparr>entrypoint_id = ''e1'', appId = ''a1'', urlMatcher = ''acme.example.com/*'',
                configuration = Some [(''API_URL'', ''/api'')], bundleId = Some ''b1''\<rparr>
               \<lparr>entrypoint_id = ''e1'', appId = ''a1'', urlMatcher = ''acme.example.com/*'',
                configuration = Some [(''API_URL'', ''/api'')], bundleId = Some ''b2''\<rparr>)]\<rparr>,
      [EntrypointsUpdate ''e1'' \<lparr>patch_bundleId = ''b2''\<rparr>
         (Inr \<lparr>entrypoint_id = ''e1'', appId = ''a1'', urlMatcher = ''acme.example.com/*'',
                configuration = Some [(''API_URL'', ''/api'')], bundleId = Some ''b2''\<rparr>),
       LogOperation updateEntrypoint
         (UpdatedEntrypoint
            \<lparr>entrypoint_id = ''e1'', appId = ''a1'', urlMatcher = ''acme.example.com/*'',
             configuration = Some [(''API_URL'', ''/api'')], bundleId = Some ''b1''\<rparr>
            \<lparr>entrypoint_id = ''e1'', appId = ''a1'', urlMatcher = ''acme.example.com/*'',
             configuration = Some [(''API_URL'', ''/api'')], bundleId = Some ''b2''\<rparr>)
         None]) \<and>
   (204 :: nat) \<noteq> 409"
proof -
  have o: "outcome_of (handler demo_storage deploy_v2 linked_store) = Sent 204 None"
    by (simp add: handler_defs memory_defs scenario_defs linked_store_def outcome_of_def)
  have n: "(204 :: nat) \<noteq> 409" by simp
  from deploy_success_updates_bundleId [OF o n] show ?thesis
    by (simp add: handler_defs memory_defs scenario_defs linked_store_def)
qed

section \<open>Audit log\<close>

lemma one_to_one_update:
  "audited (Some e) (trace_of (update_entrypoint c b e s)) \<and>
   emitted (trace_of (update_entrypoint c b e s)) =
     performed (trace_of (update_entrypoint c b e s)) \<and>
   performed (trace_of (update_entrypoint c b e s)) \<in> set (subseqs [updateEntrypoint])"
  by (simp add: trace_update_entrypoint split: sum.splits)

lemma one_to_one_ensure_entrypoint:
  "audited existingEntrypoint
     (trace_of (ensure_entrypoint c body b a existingEntrypoint s)) \<and>
   emitted (trace_of (ensure_entrypoint c body b a existingEntrypoint s)) =
     performed (trace_of (ensure_entrypoint c body b a existingEntrypoint s)) \<and>
   performed (trace_of (ensure_entrypoint c body b a existingEntrypoint s)) \<in>
     set (subseqs [createEntrypoint, updateEntrypoint])"
  using one_to_one_update [of _ c b]
  by (simp add: ensure_entrypoint_def run_simps Let_def
        split: prod.splits sum.splits option.splits)

lemma one_to_one_ensure_app:
  "audited existingEntrypoint
     (trace_of (ensure_app c body b existingApp existingEntrypoint s)) \<and>
   emitted (trace_of (ensure_app c body b existingApp existingEntrypoint s)) =
     performed (trace_of (ensure_app c body b existingApp existingEntrypoint s)) \<and>
   performed (trace_of (ensure_app c body b existingApp existingEntrypoint s)) \<in>
     set (subseqs [createApp, createEntrypoint, updateEntrypoint])"
  using one_to_one_ensure_entrypoint [of existingEntrypoint c body b]
  by (simp add: ensure_app_def run_simps Let_def
        split: prod.splits sum.splits option.splits)

lemma recorded_update:
  "recorded (trace_of (update_entrypoint c b e s)) =
     (if log_faults (trace_of (update_entrypoint c b e s)) = []
      then performed (trace_of (update_entrypoint c b e s))
      else butlast (performed (trace_of (update_entrypoint c b e s))))"
  "performed (trace_of (update_entrypoint c b e s)) = [] \<Longrightarrow>
     log_faults (trace_of (update_entrypoint c b e s)) = []"
  by (auto simp add: update_entrypoint_def run_simps
        split: prod.splits sum.splits option.splits)

lemma recorded_ensure_entrypoint:
  "recorded (trace_of (ensure_entrypoint c body b a e s)) =
     (if log_faults (trace_of (ensure_entrypoint c body b a e s)) = []
      then performed (trace_of (ensure_entrypoint c body b a e s))
      else butlast (performed (trace_of (ensure_entrypoint c body b a e s))))"
  "performed (trace_of (ensure_entrypoint c body b a e s)) = [] \<Longrightarrow>
     log_faults (trace_of (ensure_entrypoint c body b a e s)) = []"
  by (auto simp add: ensure_entrypoint_def run_simps recorded_update
        split: prod.splits sum.splits option.splits)

lemma recorded_ensure_app:
  "recorded (trace_of (ensure_app c body b a e s)) =
     (if log_faults (trace_of (ensure_app c body b a e s)) = []
      then performed (trace_of (ensure_app c body b a e s))
      else butlast (performed (trace_of (ensure_app c body b a e s))))"
  "performed (trace_of (ensure_app c body b a e s)) = [] \<Longrightarrow>
     log_faults (trace_of (ensure_app c body b a e s)) = []"
  by (auto simp add: ensure_app_def run_simps recorded_ensure_entrypoint
        split: prod.splits sum.splits option.splits)

text \<open>
  Claim C7, as the code has it. In every run the calls of the trace are calls made on
  the collaborators, each returning what the trace says, and the state at the end is the
  one they leave. Each mutation that was performed is followed at once by the
  \<open>logOperation\<close> call of its kind, which carries the record the mutation returned (for
  the update: the entrypoint the handler held before it and the one the update
  returned), and there is no other \<open>logOperation\<close> call; the mutations performed are
  taken, in this order and each at most once, from \<open>createApp\<close>, \<open>createEntrypoint\<close>,
  \<open>updateEntrypoint\<close>. When no \<open>logOperation\<close> call raised, the events in the audit
  log are the mutations performed, one for one and in the same order. When one raised, it
  was the call for the last mutation performed, which is left without an event.
\<close>

theorem deploy_audit_one_to_one:
  "replay c s (trace_of (handler c body s)) = Some (state_of (handler c body s)) \<and>
   audited (case lookups c body s of Inl f \<Rightarrow> None | Inr (b, a, e) \<Rightarrow> e)
     (trace_of (handler c body s)) \<and>
   emitted (trace_of (handler c body s)) = performed (trace_of (handler c body s)) \<and>
   performed (trace_of (handler c body s)) \<in>
     set (subseqs [createApp, createEntrypoint, updateEntrypoint]) \<and>
   recorded (trace_of (handler c body s)) =
     (if log_faults (trace_of (handler c body s)) = []
      then performed (trace_of (handler c body s))
      else butlast (performed (trace_of (handler c body s))))"
proof (cases c body s rule: handler_cases)
  case (deploy b a e)
  then show ?thesis
    using one_to_one_ensure_app [of e c body b a s] recorded_ensure_app(1) [of c body b a e s]
      handler_replay [of c s body]
    by simp
qed (simp_all add: run_simps)

text \<open>
  As the claim was stated, for every execution, it fails when the audit log raises: the
  entrypoint has been created and stored, the \<open>logOperation\<close> call of it raises, and
  the run ends with one mutation performed and no event in the audit log.
\<close>

theorem deploy_audit_one_to_one_counterexample:
  "handler (without_log demo_storage) deploy_blog conflict_store =
     (Raised (Fault OutOfService),
      conflict_store
        \<lparr>all_entrypoints :=
           all_entrypoints conflict_store @
           [\<lparr>entrypoint_id = ''id'', appId = ''a1'', urlMatcher = ''acme.example.com/blog/'',
             configuration = None, bundleId = None\<rparr>],
         nextId := 1\<rparr>,
      [EntrypointsCreate
         \<lparr>new_appId = ''a1'', new_urlMatcher = ''acme.example.com/blog/'',
          new_configuration = None\<rparr>
         (Inr \<lparr>entrypoint_id = ''id'', appId = ''a1'',
                urlMatcher = ''acme.example.com/blog/'', configuration = None,
                bundleId = None\<rparr>),
       LogOperation createEntrypoint
         (CreatedEntrypoint
            \<lparr>entrypoint_id = ''id'', appId = ''a1'', urlMatcher = ''acme.example.com/blog/'',
             configuration = None, bundleId = None\<rparr>)
         (Some OutOfService)]) \<and>
   performed (trace_of (handler (without_log demo_storage) deploy_blog conflict_store)) =
     [createEntrypoint] \<and>
   recorded (trace_of (handler (without_log demo_storage) deploy_blog conflict_store)) = [] \<and>
   all_operationLogs
     (state_of (handler (without_log demo_storage) deploy_blog conflict_store)) = []"
  by (simp add: handler_defs memory_defs scenario_defs trace_of_def state_of_def)

text \<open>
  The first end-to-end scenario of the spec: three mutations, three events in the
  operation log of the store.
\<close>

theorem deploy_audit_one_to_one_witness:
  "handler demo_storage deploy_v1 fresh_store =
     (Sent 204 None, deployed_store,
      [ValidateUrlMatcher ''acme.example.com/*'' None,
       AppsCreate \<lparr>new_name = ''acme'', new_defaultConfiguration = []\<rparr>
         (Inr \<lparr>app_id = ''id'', app_name = ''acme'', app_defaultConfiguration = []\<rparr>),
       LogOperation createApp
         (CreatedApp \<lparr>app_id = ''id'', app_name = ''acme'', app_defaultConfiguration = []\<rparr>)
         None,
       EntrypointsCreate
         \<lparr>new_appId = ''id'', new_urlMatcher = ''acme.example.com/*'',
          new_configuration = None\<rparr>
         (Inr \<lparr>entrypoint_id = ''id+'', appId = ''id'', urlMatcher = ''acme.example.com/*'',
                configuration = None, bundleId = None\<rparr>),
       LogOperation createEntrypoint
         (CreatedEntrypoint
            \<lparr>entrypoint_id = ''id+'', appId = ''id'', urlMatcher = ''acme.example.com/*'',
             configuration = None, bundleId = None\<rparr>)
         None,
       EntrypointsUpdate ''id+'' \<lparr>patch_bundleId = ''b1''\<rparr>
         (Inr \<lparr>entrypoint_id = ''id+'', appId = ''id'', urlMatcher = ''acme.example.com/*'',
                configuration = None, bundleId = Some ''b1''\<rparr>),
       LogOperation updateEntrypoint
         (UpdatedEntrypoint
            \<lparr>entrypoint_id = ''id+'', appId = ''id'', urlMatcher = ''acme.example.com/*'',
             configuration = None, bundleId = None\<rparr>
            \<lparr>entrypoint_id = ''id+'', appId = ''id'', urlMatcher = ''acme.example.com/*'',
             configuration = None, bundleId = Some ''b1''\<rparr>)
         None]) \<and>
   log_faults (trace_of (handler demo_storage deploy_v1 fresh_store)) = [] \<and>
   recorded (trace_of (handler demo_storage deploy_v1 fresh_store)) =
     [createApp, createEntrypoint, updateEntrypoint] \<and>
   performed (trace_of (handler demo_storage deploy_v1 fresh_store)) =
     [createApp, createEntrypoint, updateEntrypoint] \<and>
   map fst (all_operationLogs (state_of (handler demo_storage deploy_v1 fresh_store))) =
     [createApp, createEntrypoint, updateEntrypoint]"
  using deploy_audit_one_to_one [of demo_storage fresh_store deploy_v1]
  by (simp add: handler_defs memory_defs scenario_defs trace_of_def state_of_def)

section \<open>No retry, no rollback\<close>

text \<open>
  Claim C8. In every run, the state at the end is the state the calls of the trace leave,
  made one after the other from the initial state: the handler changes the storage
  through these calls only, and none of them deletes a record. No call but the last one
  raised, so no call is made after a fault (no retry, no compensating call), and the fault
  of the last call is what the run raises, as it is. An error the run raises is either
  its own \<open>BundleNotFoundError\<close> or the fault of a collaborator: of a lookup, or of
  the last call (the validation included).
\<close>

theorem deploy_no_rollback:
  "replay c s (trace_of (handler c body s)) = Some (state_of (handler c body s)) \<and>
   (\<forall>ev \<in> set (butlast (trace_of (handler c body s))). fault_of ev = None) \<and>
   (\<forall>f. trace_of (handler c body s) \<noteq> [] \<and>
        fault_of (last (trace_of (handler c body s))) = Some f \<longrightarrow>
        outcome_of (handler c body s) = Raised (Fault f)) \<and>
   (\<forall>e. outcome_of (handler c body s) = Raised e \<longrightarrow>
        e = BundleNotFoundError (bundleNameTagCombination body) ''name:tag combination'' \<or>
        (\<exists>f. e = Fault f \<and>
           (lookups c body s = Inl f \<or>
            trace_of (handler c body s) \<noteq> [] \<and>
            fault_of (last (trace_of (handler c body s))) = Some f)))"
proof (cases c body s rule: handler_cases)
  case (deploy b a e)
  have "\<exists>f. x = Fault f \<and> fault_of (last (trace_of (ensure_app c body b a e s))) = Some f"
    if x: "outcome_of (ensure_app c body b a e s) = Raised x" for x
  proof (cases "fault_of (last (trace_of (ensure_app c body b a e s)))")
    case None
    from no_rollback_ensure_app(4) [OF None] x show ?thesis by simp
  next
    case (Some f)
    from no_rollback_ensure_app(3) [OF Some] x show ?thesis using Some by simp
  qed
  then show ?thesis
    using deploy
    by (auto simp add: no_rollback_ensure_app(1,5) dest: no_rollback_ensure_app(2,3))
qed (simp_all add: run_simps)

text \<open>
  The audit log is out of service: the app has been created, the log of it fails, the
  fault is raised as it is and the app stays in the store.
\<close>

theorem deploy_no_rollback_witness:
  "handler (without_log demo_storage) deploy_v1 fresh_store =
     (Raised (Fault OutOfService),
      fresh_store
        \<lparr>all_apps := [\<lparr>app_id = ''id'', app_name = ''acme'', app_defaultConfiguration = []\<rparr>],
         nextId := 1\<rparr>,
      [ValidateUrlMatcher ''acme.example.com/*'' None,
       AppsCreate \<lparr>new_name = ''acme'', new_defaultConfiguration = []\<rparr>
         (Inr \<lparr>app_id = ''id'', app_name = ''acme'', app_defaultConfiguration = []\<rparr>),
       LogOperation createApp
         (CreatedApp \<lparr>app_id = ''id'', app_name = ''acme'', app_defaultConfiguration = []\<rparr>)
         (Some OutOfService)]) \<and>
   replay (without_log demo_storage) fresh_store
     (trace_of (handler (without_log demo_storage) deploy_v1 fresh_store)) =
     Some (fresh_store
        \<lparr>all_apps := [\<lparr>app_id = ''id'', app_name = ''acme'', app_defaultConfiguration = []\<rparr>],
         nextId := 1\<rparr>)"
  using deploy_no_rollback [of "without_log demo_storage" fresh_store deploy_v1]
  by (simp add: handler_defs memory_defs scenario_defs trace_of_def state_of_def)

section \<open>Where the url matcher is validated\<close>

lemma validations_update: "validations (trace_of (update_entrypoint c b e s)) = []"
  by (simp add: trace_update_entrypoint split: sum.splits)

lemma validations_ensure_entrypoint:
  "validations (trace_of (ensure_entrypoint c body b a e s)) = []"
  by (simp add: ensure_entrypoint_def run_simps validations_update
        split: prod.splits sum.splits option.splits)

text \<open>
  Claim C9, as the code has it. A run calls \<open>validateEntrypointUrlMatcher\<close> only when the
  bundle exists and neither an app nor an entrypoint is found. When the bundle exists,
  the app exists and the entrypoint does not, the run makes no validation call, and its
  first call is \<open>storage.entrypoints.create\<close> for the app found.
\<close>

theorem deploy_validation_only_without_app:
  "(validations (trace_of (handler c body s)) \<noteq> [] \<longrightarrow>
      (\<exists>bundle. lookups c body s = Inr (Some bundle, None, None))) \<and>
   (lookups c body s = Inr (Some b, Some a, None) \<longrightarrow>
      validations (trace_of (handler c body s)) = [] \<and>
      (\<exists>rest. trace_of (handler c body s) =
         EntrypointsCreate
           \<lparr>new_appId = app_id a, new_urlMatcher = entrypointUrlMatcher body,
            new_configuration = None\<rparr>
           (fst (entrypoints_create c
              \<lparr>new_appId = app_id a, new_urlMatcher = entrypointUrlMatcher body,
               new_configuration = None\<rparr> s)) # rest))"
proof
  show "validations (trace_of (handler c body s)) \<noteq> [] \<longrightarrow>
      (\<exists>bundle. lookups c body s = Inr (Some bundle, None, None))"
  proof (cases c body s rule: handler_cases)
    case (deploy b' a' e')
    show ?thesis
    proof (cases a')
      case None
      with deploy(2) have "e' = None"
        by (simp add: mismatch_def split: option.splits)
      with None deploy(1) show ?thesis by simp
    next
      case (Some x)
      then show ?thesis
        by (simp add: deploy(3) ensure_app_def validations_ensure_entrypoint)
    qed
  qed (simp_all add: run_simps)
  show "lookups c body s = Inr (Some b, Some a, None) \<longrightarrow>
      validations (trace_of (handler c body s)) = [] \<and>
      (\<exists>rest. trace_of (handler c body s) =
         EntrypointsCreate
           \<lparr>new_appId = app_id a, new_urlMatcher = entrypointUrlMatcher body,
            new_configuration = None\<rparr>
           (fst (entrypoints_create c
              \<lparr>new_appId = app_id a, new_urlMatcher = entrypointUrlMatcher body,
               new_configuration = None\<rparr> s)) # rest)"
  proof
    assume l: "lookups c body s = Inr (Some b, Some a, None)"
    have h: "handler c body s = ensure_entrypoint c body b a None s"
      using l by (simp add: handler_found mismatch_def ensure_app_def)
    show "validations (trace_of (handler c body s)) = [] \<and>
      (\<exists>rest. trace_of (handler c body s) =
         EntrypointsCreate
           \<lparr>new_appId = app_id a, new_urlMatcher = entrypointUrlMatcher body,
            new_configuration = None\<rparr>
           (fst (entrypoints_create c
              \<lparr>new_appId = app_id a, new_urlMatcher = entrypointUrlMatcher body,
               new_configuration = None\<rparr> s)) # rest)"
      unfolding h
      by (simp add: validations_ensure_entrypoint)
         (simp add: ensure_entrypoint_def run_simps split: prod.splits)
  qed
qed

text \<open>
  Without the condition on the bundle the claim fails: the app exists, the entrypoint
  does not, and the run creates no entrypoint, since the bundle \<open>site:v3\<close> is not found.
\<close>

theorem deploy_validation_only_without_app_counterexample:
  "findLatestByNameTagCombination demo_storage (bundleNameTagCombination deploy_v3)
     conflict_store = Inr None \<and>
   findOneByIdOrName demo_storage (appName deploy_v3) conflict_store =
     Inr (Some \<lparr>app_id = ''a1'', app_name = ''acme'', app_defaultConfiguration = []\<rparr>) \<and>
   findOneByIdOrUrlMatcher demo_storage (entrypointUrlMatcher deploy_v3) conflict_store =
     Inr None \<and>
   handler demo_storage deploy_v3 conflict_store =
     (Raised (BundleNotFoundError ''site:v3'' ''name:tag combination''), conflict_store, [])"
  by (simp add: handler_defs memory_defs scenario_defs)

text \<open>
  The same request with a bundle that exists.
\<close>

theorem deploy_validation_only_without_app_witness:
  "lookups demo_storage deploy_blog conflict_store =
     Inr (Some \<lparr>bundle_id = ''b2'', bundle_name = ''site'', bundle_tag = ''v2''\<rparr>,
          Some \<lparr>app_id = ''a1'', app_name = ''acme'', app_defaultConfiguration = []\<rparr>,
          None) \<and>
   validations (trace_of (handler demo_storage deploy_blog conflict_store)) = [] \<and>
   take 1 (trace_of (handler demo_storage deploy_blog conflict_store)) =
     [EntrypointsCreate
        \<lparr>new_appId = ''a1'', new_urlMatcher = ''acme.example.com/blog/'',
         new_configuration = None\<rparr>
        (Inr \<lparr>entrypoint_id = ''id'', appId = ''a1'',
               urlMatcher = ''acme.example.com/blog/'', configuration = None,
               bundleId = None\<rparr>)]"
proof -
  have l: "lookups demo_storage deploy_blog conflict_store =
     Inr (Some \<lparr>bundle_id = ''b2'', bundle_name = ''site'', bundle_tag = ''v2''\<rparr>,
          Some \<lparr>app_id = ''a1'', app_name = ''acme'', app_defaultConfiguration = []\<rparr>,
          None)"
    by (simp add: lookups_Inr memory_defs scenario_defs)
  from deploy_validation_only_without_app
         [of demo_storage deploy_blog conflict_store
             "\<lparr>bundle_id = ''b2'', bundle_name = ''site'', bundle_tag = ''v2''\<rparr>"
             "\<lparr>app_id = ''a1'', app_name = ''acme'', app_defaultConfiguration = []\<rparr>"] l
  show ?thesis
    by (auto simp add: memory_defs scenario_defs)
qed

section \<open>Idempotence\<close>

text \<open>
  What a second call finds is what the storage gives back of the first. The next lemmas
  unfold the laws of a storage, one call at a time.
\<close>

lemma unchanged_trans:
  "unchanged_bundles c s s1 \<Longrightarrow> unchanged_bundles c s1 s2 \<Longrightarrow> unchanged_bundles c s s2"
  "unchanged_apps c s s1 \<Longrightarrow> unchanged_apps c s1 s2 \<Longrightarrow> unchanged_apps c s s2"
  "unchanged_entrypoints c s s1 \<Longrightarrow> unchanged_entrypoints c s1 s2 \<Longrightarrow>
     unchanged_entrypoints c s s2"
  by (simp_all add: unchanged_bundles_def unchanged_apps_def unchanged_entrypoints_def)

lemma log_lawD:
  assumes "storage_laws c" and "logOperation c op p s = (l, s')"
  shows "l = None" "unchanged_bundles c s s'" "unchanged_apps c s s'"
    "unchanged_entrypoints c s s'"
proof -
  from assms(1) have "log_law c" by (simp add: storage_laws_def)
  then have "fst (logOperation c op p s) = None \<and>
        unchanged_bundles c s (snd (logOperation c op p s)) \<and>
        unchanged_apps c s (snd (logOperation c op p s)) \<and>
        unchanged_entrypoints c s (snd (logOperation c op p s))"
    unfolding log_law_def by blast
  then show "l = None" "unchanged_bundles c s s'" "unchanged_apps c s s'"
    "unchanged_entrypoints c s s'"
    using assms(2) by simp_all
qed

lemma update_lawD:
  assumes "storage_laws c" and "entrypoints_update c k p s = (Inr e', s')"
  shows "unchanged_bundles c s s'" "unchanged_apps c s s'"
    "findOneByIdOrUrlMatcher c m s = Inr (Some e) \<Longrightarrow> entrypoint_id e = k \<Longrightarrow>
       \<exists>e2. findOneByIdOrUrlMatcher c m s' = Inr (Some e2) \<and>
              entrypoint_id e2 = k \<and> appId e2 = appId e \<and>
              bundleId e2 = Some (patch_bundleId p)"
proof -
  from assms(1) have "entrypoints_update_law c" by (simp add: storage_laws_def)
  then have *: "unchanged_bundles c s s' \<and> unchanged_apps c s s' \<and>
        (\<forall>m e. findOneByIdOrUrlMatcher c m s = Inr (Some e) \<and> entrypoint_id e = k \<longrightarrow>
           (\<exists>e2. findOneByIdOrUrlMatcher c m s' = Inr (Some e2) \<and>
              entrypoint_id e2 = k \<and> appId e2 = appId e \<and>
              bundleId e2 = Some (patch_bundleId p)))"
    unfolding entrypoints_update_law_def using assms(2) by blast
  from * show "unchanged_bundles c s s'" "unchanged_apps c s s'" by simp_all
  from * show "findOneByIdOrUrlMatcher c m s = Inr (Some e) \<Longrightarrow> entrypoint_id e = k \<Longrightarrow>
       \<exists>e2. findOneByIdOrUrlMatcher c m s' = Inr (Some e2) \<and>
              entrypoint_id e2 = k \<and> appId e2 = appId e \<and>
              bundleId e2 = Some (patch_bundleId p)"
    by blast
qed

lemma entrypoints_create_lawD:
  assumes "storage_laws c" and "entrypoints_create c i s = (Inr e, s')"
  shows "unchanged_bundles c s s'" "unchanged_apps c s s'" "appId e = new_appId i"
    "findOneByIdOrUrlMatcher c (new_urlMatcher i) s = Inr None \<Longrightarrow>
       findOneByIdOrUrlMatcher c (new_urlMatcher i) s' = Inr (Some e)"
proof -
  from assms(1) have "entrypoints_create_law c" by (simp add: storage_laws_def)
  then have *: "unchanged_bundles c s s' \<and> unchanged_apps c s s' \<and> appId e = new_appId i \<and>
        (findOneByIdOrUrlMatcher c (new_urlMatcher i) s = Inr None \<longrightarrow>
           findOneByIdOrUrlMatcher c (new_urlMatcher i) s' = Inr (Some e))"
    unfolding entrypoints_create_law_def using assms(2) by blast
  from * show "unchanged_bundles c s s'" "unchanged_apps c s s'" "appId e = new_appId i"
    by simp_all
  from * show "findOneByIdOrUrlMatcher c (new_urlMatcher i) s = Inr None \<Longrightarrow>
       findOneByIdOrUrlMatcher c (new_urlMatcher i) s' = Inr (Some e)"
    by blast
qed

lemma apps_create_lawD:
  assumes "storage_laws c" and "apps_create c i s = (Inr a, s')"
  shows "unchanged_bundles c s s'" "unchanged_entrypoints c s s'"
    "findOneByIdOrName c (new_name i) s = Inr None \<Longrightarrow>
       findOneByIdOrName c (new_name i) s' = Inr (Some a)"
proof -
  from assms(1) have "apps_create_law c" by (simp add: storage_laws_def)
  then have *: "unchanged_bundles c s s' \<and> unchanged_entrypoints c s s' \<and>
        (findOneByIdOrName c (new_name i) s = Inr None \<longrightarrow>
           findOneByIdOrName c (new_name i) s' = Inr (Some a))"
    unfolding apps_create_law_def using assms(2) by blast
  from * show "unchanged_bundles c s s'" "unchanged_entrypoints c s s'" by simp_all
  from * show "findOneByIdOrName c (new_name i) s = Inr None \<Longrightarrow>
       findOneByIdOrName c (new_name i) s' = Inr (Some a)"
    by blast
qed

lemma updatable_lawD:
  assumes "storage_laws c" and "findOneByIdOrUrlMatcher c m s = Inr (Some e)"
  shows "\<exists>e' s'. entrypoints_update c (entrypoint_id e) p s = (Inr e', s')"
proof -
  from assms(1) have "updatable_law c" by (simp add: storage_laws_def)
  then have "\<exists>e'. fst (entrypoints_update c (entrypoint_id e) p s) = Inr e'"
    unfolding updatable_law_def using assms(2) by blast
  then show ?thesis by (metis prod.collapse)
qed

text \<open>
  A run that sends 204 ends with the update and its log; on a lawful storage the update
  leaves the entrypoint where the lookup finds it, with the bundle.
\<close>

lemma update_entrypoint_lawful:
  assumes laws: "storage_laws c"
    and found: "findOneByIdOrUrlMatcher c m s = Inr (Some e)"
    and sent: "outcome_of (update_entrypoint c b e s) = Sent status sent_body"
  shows "unchanged_bundles c s (state_of (update_entrypoint c b e s))"
    and "unchanged_apps c s (state_of (update_entrypoint c b e s))"
    and "\<exists>e2. findOneByIdOrUrlMatcher c m (state_of (update_entrypoint c b e s)) =
                 Inr (Some e2) \<and>
               entrypoint_id e2 = entrypoint_id e \<and> appId e2 = appId e \<and>
               bundleId e2 = Some (bundle_id b)"
proof -
  from sent obtain e' s1 where
    u: "entrypoints_update c (entrypoint_id e) \<lparr>patch_bundleId = bundle_id b\<rparr> s = (Inr e', s1)"
    and l: "logOperation c updateEntrypoint (UpdatedEntrypoint e e') s1 =
       (None, state_of (update_entrypoint c b e s))"
    by (rule update_entrypoint_Sent)
  show "unchanged_bundles c s (state_of (update_entrypoint c b e s))"
    using unchanged_trans(1) [OF update_lawD(1) [OF laws u] log_lawD(2) [OF laws l]] .
  show "unchanged_apps c s (state_of (update_entrypoint c b e s))"
    using unchanged_trans(2) [OF update_lawD(2) [OF laws u] log_lawD(3) [OF laws l]] .
  from update_lawD(3) [OF laws u found] obtain e2 where
    "findOneByIdOrUrlMatcher c m s1 = Inr (Some e2)" "entrypoint_id e2 = entrypoint_id e"
    "appId e2 = appId e" "bundleId e2 = Some (bundle_id b)"
    by auto
  moreover have "findOneByIdOrUrlMatcher c m (state_of (update_entrypoint c b e s)) =
      findOneByIdOrUrlMatcher c m s1"
    using log_lawD(4) [OF laws l] by (simp add: unchanged_entrypoints_def)
  ultimately show "\<exists>e2. findOneByIdOrUrlMatcher c m (state_of (update_entrypoint c b e s)) =
                 Inr (Some e2) \<and>
               entrypoint_id e2 = entrypoint_id e \<and> appId e2 = appId e \<and>
               bundleId e2 = Some (bundle_id b)"
    by simp
qed

text \<open>
  On a lawful storage a run that sends a response has reached the update in a state where
  the three lookups find the bundle, the app and the entrypoint, and the entrypoint
  belongs to the app.
\<close>

lemma ensure_entrypoint_reaches_update:
  assumes laws: "storage_laws c"
    and l: "lookups c body s = Inr (Some b, Some a, existingEntrypoint)"
    and m: "\<not> mismatch (Some a) existingEntrypoint"
    and sent: "outcome_of (ensure_entrypoint c body b a existingEntrypoint s) =
                 Sent status sent_body"
  shows "\<exists>e s0. lookups c body s0 = Inr (Some b, Some a, Some e) \<and> app_id a = appId e \<and>
           state_of (ensure_entrypoint c body b a existingEntrypoint s) =
             state_of (update_entrypoint c b e s0) \<and>
           outcome_of (update_entrypoint c b e s0) = Sent status sent_body"
proof (cases existingEntrypoint)
  case (Some e)
  with l m sent show ?thesis
    by (auto simp add: ensure_entrypoint_def mismatch_def)
next
  case None
  let ?i = "\<lparr>new_appId = app_id a, new_urlMatcher = entrypointUrlMatcher body,
             new_configuration = None\<rparr>"
  from sent None obtain e s1 s2 where
    cr: "entrypoints_create c ?i s = (Inr e, s1)"
    and lg: "logOperation c createEntrypoint (CreatedEntrypoint e) s1 = (None, s2)"
    and run: "ensure_entrypoint c body b a existingEntrypoint s =
            after (EntrypointsCreate ?i (Inr e))
              (after (LogOperation createEntrypoint (CreatedEntrypoint e) None)
                 (update_entrypoint c b e s2))"
    by (auto simp add: ensure_entrypoint_def run_simps
          split: prod.splits sum.splits option.splits)
  from l None have
    fb: "findLatestByNameTagCombination c (bundleNameTagCombination body) s = Inr (Some b)"
    and fa: "findOneByIdOrName c (appName body) s = Inr (Some a)"
    and fe: "findOneByIdOrUrlMatcher c (entrypointUrlMatcher body) s = Inr None"
    by (simp_all add: lookups_Inr)
  have ub: "unchanged_bundles c s s2"
    using unchanged_trans(1) [OF entrypoints_create_lawD(1) [OF laws cr] log_lawD(2) [OF laws lg]] .
  have ua: "unchanged_apps c s s2"
    using unchanged_trans(2) [OF entrypoints_create_lawD(2) [OF laws cr] log_lawD(3) [OF laws lg]] .
  have "findOneByIdOrUrlMatcher c (entrypointUrlMatcher body) s1 = Inr (Some e)"
    using entrypoints_create_lawD(4) [OF laws cr] fe by simp
  then have fe2: "findOneByIdOrUrlMatcher c (entrypointUrlMatcher body) s2 = Inr (Some e)"
    using log_lawD(4) [OF laws lg] by (simp add: unchanged_entrypoints_def)
  have "lookups c body s2 = Inr (Some b, Some a, Some e)"
    using fb fa fe2 ub ua
    by (simp add: lookups_Inr unchanged_bundles_def unchanged_apps_def)
  moreover have "app_id a = appId e"
    using entrypoints_create_lawD(3) [OF laws cr] by simp
  moreover have "state_of (ensure_entrypoint c body b a existingEntrypoint s) =
             state_of (update_entrypoint c b e s2)"
    by (simp add: run run_simps)
  moreover have "outcome_of (update_entrypoint c b e s2) = Sent status sent_body"
    using sent by (simp add: run run_simps)
  ultimately show ?thesis by blast
qed

lemma ensure_app_reaches_update:
  assumes laws: "storage_laws c"
    and l: "lookups c body s = Inr (Some b, existingApp, existingEntrypoint)"
    and m: "\<not> mismatch existingApp existingEntrypoint"
    and sent: "outcome_of (ensure_app c body b existingApp existingEntrypoint s) =
                 Sent status sent_body"
  shows "\<exists>a e s0. lookups c body s0 = Inr (Some b, Some a, Some e) \<and> app_id a = appId e \<and>
           state_of (ensure_app c body b existingApp existingEntrypoint s) =
             state_of (update_entrypoint c b e s0) \<and>
           outcome_of (update_entrypoint c b e s0) = Sent status sent_body"
proof (cases existingApp)
  case (Some a)
  with sent have "outcome_of (ensure_entrypoint c body b a existingEntrypoint s) =
                 Sent status sent_body"
    by (simp add: ensure_app_def)
  from ensure_entrypoint_reaches_update [OF laws _ _ this] l m Some show ?thesis
    by (auto simp add: ensure_app_def)
next
  case None
  with m have ee: "existingEntrypoint = None"
    by (simp add: mismatch_def split: option.splits)
  let ?i = "\<lparr>new_name = appName body, new_defaultConfiguration = []\<rparr>"
  from sent None obtain a s1 s2 where
    cr: "apps_create c ?i s = (Inr a, s1)"
    and lg: "logOperation c createApp (CreatedApp a) s1 = (None, s2)"
    and run: "ensure_app c body b existingApp existingEntrypoint s =
            after (ValidateUrlMatcher (entrypointUrlMatcher body) None)
              (after (AppsCreate ?i (Inr a))
                 (after (LogOperation createApp (CreatedApp a) None)
                    (ensure_entrypoint c body b a existingEntrypoint s2)))"
    by (auto simp add: ensure_app_def run_simps
          split: prod.splits sum.splits option.splits)
  from l None ee have
    fb: "findLatestByNameTagCombination c (bundleNameTagCombination body) s = Inr (Some b)"
    and fa: "findOneByIdOrName c (appName body) s = Inr None"
    and fe: "findOneByIdOrUrlMatcher c (entrypointUrlMatcher body) s = Inr None"
    by (simp_all add: lookups_Inr)
  have ub: "unchanged_bundles c s s2"
    using unchanged_trans(1) [OF apps_create_lawD(1) [OF laws cr] log_lawD(2) [OF laws lg]] .
  have ue: "unchanged_entrypoints c s s2"
    using unchanged_trans(3) [OF apps_create_lawD(2) [OF laws cr] log_lawD(4) [OF laws lg]] .
  have "findOneByIdOrName c (appName body) s1 = Inr (Some a)"
    using apps_create_lawD(3) [OF laws cr] fa by simp
  then have fa2: "findOneByIdOrName c (appName body) s2 = Inr (Some a)"
    using log_lawD(3) [OF laws lg] by (simp add: unchanged_apps_def)
  have l2: "lookups c body s2 = Inr (Some b, Some a, existingEntrypoint)"
    using fb fa2 fe ub ue ee
    by (simp add: lookups_Inr unchanged_bundles_def unchanged_entrypoints_def)
  have m2: "\<not> mismatch (Some a) existingEntrypoint"
    using ee by (simp add: mismatch_def)
  have "outcome_of (ensure_entrypoint c body b a existingEntrypoint s2) =
          Sent status sent_body"
    using sent by (simp add: run run_simps)
  from ensure_entrypoint_reaches_update [OF laws l2 m2 this] show ?thesis
    by (auto simp add: run run_simps)
qed

lemma handler_reaches_update:
  assumes laws: "storage_laws c"
    and sent: "outcome_of (handler c body s) = Sent 204 None"
  shows "\<exists>b a e s0. lookups c body s0 = Inr (Some b, Some a, Some e) \<and> app_id a = appId e \<and>
           state_of (handler c body s) = state_of (update_entrypoint c b e s0) \<and>
           outcome_of (update_entrypoint c b e s0) = Sent 204 None"
proof (cases c body s rule: handler_cases)
  case (deploy b a e)
  from sent have "outcome_of (ensure_app c body b a e s) = Sent 204 None"
    by (simp add: deploy(3))
  from ensure_app_reaches_update [OF laws deploy(1,2) this] show ?thesis
    by (auto simp add: deploy(3))
qed (use sent in \<open>simp_all add: run_simps\<close>)

lemma handler_all_found:
  assumes "lookups c body s = Inr (Some b, Some a, Some e)" and "app_id a = appId e"
  shows "handler c body s = update_entrypoint c b e s"
  using assms
  by (simp add: handler_def mismatch_def ensure_app_def ensure_entrypoint_def)

lemma update_entrypoint_succeeds:
  assumes laws: "storage_laws c"
    and found: "findOneByIdOrUrlMatcher c m s = Inr (Some e)"
  shows "outcome_of (update_entrypoint c b e s) = Sent 204 None"
proof -
  from updatable_lawD [OF laws found] obtain e' s1 where
    u: "entrypoints_update c (entrypoint_id e) \<lparr>patch_bundleId = bundle_id b\<rparr> s = (Inr e', s1)"
    by blast
  obtain l s2 where lg: "logOperation c updateEntrypoint (UpdatedEntrypoint e e') s1 = (l, s2)"
    by (cases "logOperation c updateEntrypoint (UpdatedEntrypoint e e') s1")
  from log_lawD(1) [OF laws lg] u lg show ?thesis
    by (simp add: update_entrypoint_def run_simps)
qed

text \<open>
  Any lawful storage makes the handler idempotent: after a call that sent 204, the three
  records are found and linked, a second call is the update alone, it sends 204 again,
  and after it the lookups find the same app and bundle and the same entrypoint, still
  linked to the bundle.
\<close>

lemma lawful_idempotent:
  assumes laws: "storage_laws c"
    and sent: "outcome_of (handler c body s) = Sent 204 None"
  shows "\<exists>b a e e' e0 s0.
           findOneByIdOrUrlMatcher c (entrypointUrlMatcher body) s0 = Inr (Some e0) \<and>
           state_of (handler c body s) = state_of (update_entrypoint c b e0 s0) \<and>
           outcome_of (update_entrypoint c b e0 s0) = Sent 204 None \<and>
           entrypoint_id e = entrypoint_id e0 \<and>
           lookups c body (state_of (handler c body s)) = Inr (Some b, Some a, Some e) \<and>
           app_id a = appId e \<and> bundleId e = Some (bundle_id b) \<and>
           handler c body (state_of (handler c body s)) =
             update_entrypoint c b e (state_of (handler c body s)) \<and>
           outcome_of (handler c body (state_of (handler c body s))) = Sent 204 None \<and>
           lookups c body (state_of (handler c body (state_of (handler c body s)))) =
             Inr (Some b, Some a, Some e') \<and>
           entrypoint_id e' = entrypoint_id e \<and> appId e' = appId e \<and>
           bundleId e' = Some (bundle_id b)"
proof -
  let ?m = "entrypointUrlMatcher body"
  let ?s1 = "state_of (handler c body s)"
  from handler_reaches_update [OF laws sent] obtain b a e0 s0 where
    l0: "lookups c body s0 = Inr (Some b, Some a, Some e0)"
    and a0: "app_id a = appId e0"
    and s1: "?s1 = state_of (update_entrypoint c b e0 s0)"
    and o0: "outcome_of (update_entrypoint c b e0 s0) = Sent 204 None"
    by blast
  from l0 have f0: "findOneByIdOrUrlMatcher c ?m s0 = Inr (Some e0)"
    by (simp add: lookups_Inr)
  from update_entrypoint_lawful(3) [OF laws f0 o0] obtain e where
    fe: "findOneByIdOrUrlMatcher c ?m ?s1 = Inr (Some e)"
    and e: "appId e = appId e0" "bundleId e = Some (bundle_id b)"
    and ie: "entrypoint_id e = entrypoint_id e0"
    by (auto simp add: s1)
  have l1: "lookups c body ?s1 = Inr (Some b, Some a, Some e)"
    using l0 fe update_entrypoint_lawful(1,2) [OF laws f0 o0]
    by (simp add: lookups_Inr s1 unchanged_bundles_def unchanged_apps_def)
  have a1: "app_id a = appId e" using a0 e by simp
  have h: "handler c body ?s1 = update_entrypoint c b e ?s1"
    using handler_all_found [OF l1 a1] .
  have o1: "outcome_of (update_entrypoint c b e ?s1) = Sent 204 None"
    using update_entrypoint_succeeds [OF laws fe] .
  from update_entrypoint_lawful(3) [OF laws fe o1] obtain e' where
    fe': "findOneByIdOrUrlMatcher c ?m (state_of (update_entrypoint c b e ?s1)) =
            Inr (Some e')"
    and e': "entrypoint_id e' = entrypoint_id e" "appId e' = appId e"
      "bundleId e' = Some (bundle_id b)"
    by auto
  have l2: "lookups c body (state_of (update_entrypoint c b e ?s1)) =
              Inr (Some b, Some a, Some e')"
    using l1 fe' update_entrypoint_lawful(1,2) [OF laws fe o1]
    by (simp add: lookups_Inr unchanged_bundles_def unchanged_apps_def)
  show ?thesis
    using f0 s1 o0 ie l1 a1 e(2) h o1 l2 e' by (auto simp add: h)
qed

text \<open>
  The in-memory storage is lawful.
\<close>

lemma find_append_new: "find P xs = None \<Longrightarrow> P x \<Longrightarrow> find P (xs @ [x]) = Some x"
  by (induction xs) (auto split: if_splits)

lemma find_map_same:
  assumes "\<And>x. P (f x) = P x"
  shows "find P (map f xs) = map_option f (find P xs)"
  by (induction xs) (simp_all add: assms)

lemma find_set_bundleId:
  "find (\<lambda>e. entrypoint_id e = r \<or> urlMatcher e = r) (map (set_bundleId k v) es) =
     map_option (set_bundleId k v) (find (\<lambda>e. entrypoint_id e = r \<or> urlMatcher e = r) es)"
  by (rule find_map_same) (simp add: set_bundleId_def)

lemma memory_log_law: "log_law (memory_storage newId wellFormed)"
  by (simp add: log_law_def unchanged_bundles_def unchanged_apps_def unchanged_entrypoints_def
        memory_defs)

lemma memory_apps_create_law: "apps_create_law (memory_storage newId wellFormed)"
  by (auto simp add: apps_create_law_def unchanged_bundles_def unchanged_entrypoints_def
        memory_defs find_append_new)

lemma memory_entrypoints_create_law:
  "entrypoints_create_law (memory_storage newId wellFormed)"
  by (auto simp add: entrypoints_create_law_def unchanged_bundles_def unchanged_apps_def
        memory_defs find_append_new)

lemma memory_entrypoints_update_law:
  "entrypoints_update_law (memory_storage newId wellFormed)"
  unfolding entrypoints_update_law_def
  by (auto simp add: unchanged_bundles_def unchanged_apps_def memory_storage_def
        mem_findLatestByNameTagCombination_def mem_findOneByIdOrName_def
        mem_findOneByIdOrUrlMatcher_def mem_entrypoints_update_def find_set_bundleId
        set_bundleId_def
        split: option.splits)

lemma find_by_id_of_found:
  assumes "find (\<lambda>e. entrypoint_id e = m \<or> urlMatcher e = m) es = Some e"
  shows "\<exists>x. find (\<lambda>x. entrypoint_id x = entrypoint_id e) es = Some x"
proof -
  from assms have "e \<in> set es" by (auto simp add: find_Some_iff)
  then have "find (\<lambda>x. entrypoint_id x = entrypoint_id e) es \<noteq> None"
    by (auto simp add: find_None_iff)
  then show ?thesis by auto
qed

lemma memory_updatable_law: "updatable_law (memory_storage newId wellFormed)"
  unfolding updatable_law_def
proof (intro allI impI)
  fix m e p s
  assume "findOneByIdOrUrlMatcher (memory_storage newId wellFormed) m s = Inr (Some e)"
  then have "find (\<lambda>e. entrypoint_id e = m \<or> urlMatcher e = m) (all_entrypoints s) = Some e"
    by (simp add: memory_storage_def mem_findOneByIdOrUrlMatcher_def)
  from find_by_id_of_found [OF this] obtain x where
    "find (\<lambda>x. entrypoint_id x = entrypoint_id e) (all_entrypoints s) = Some x" ..
  then show "\<exists>e'. fst (entrypoints_update (memory_storage newId wellFormed)
                          (entrypoint_id e) p s) = Inr e'"
    by (simp add: memory_storage_def mem_entrypoints_update_def)
qed

lemma memory_storage_laws: "storage_laws (memory_storage newId wellFormed)"
  by (simp add: storage_laws_def memory_log_law memory_apps_create_law
        memory_entrypoints_create_law memory_entrypoints_update_law memory_updatable_law)

lemma set_bundleId_twice: "set_bundleId k v (set_bundleId k v e) = set_bundleId k v e"
  by (simp add: set_bundleId_def)

lemma memory_update_entrypoint:
  assumes "findOneByIdOrUrlMatcher (memory_storage newId wellFormed) m s = Inr (Some e)"
  shows "\<exists>newEntrypoint.
           update_entrypoint (memory_storage newId wellFormed) b e s =
             (Sent 204 None,
              s\<lparr>all_entrypoints :=
                   map (set_bundleId (entrypoint_id e) (bundle_id b)) (all_entrypoints s),
                all_operationLogs :=
                   all_operationLogs s @
                   [(updateEntrypoint, UpdatedEntrypoint e newEntrypoint)]\<rparr>,
              [EntrypointsUpdate (entrypoint_id e) \<lparr>patch_bundleId = bundle_id b\<rparr>
                 (Inr newEntrypoint),
               LogOperation updateEntrypoint (UpdatedEntrypoint e newEntrypoint) None])"
proof -
  from assms have
    "find (\<lambda>e. entrypoint_id e = m \<or> urlMatcher e = m) (all_entrypoints s) = Some e"
    by (simp add: memory_storage_def mem_findOneByIdOrUrlMatcher_def)
  from find_by_id_of_found [OF this] obtain x where
    "find (\<lambda>x. entrypoint_id x = entrypoint_id e) (all_entrypoints s) = Some x" ..
  then show ?thesis
    by (simp add: update_entrypoint_def after_def send_def memory_storage_def
          mem_entrypoints_update_def mem_logOperation_def)
qed

text \<open>
  Claim C1. On the in-memory storage, from every state and for every request: when a
  first call has sent 204, then in the state it leaves the bundle, the app and the
  entrypoint are found, the entrypoint belongs to the app and its \<open>bundleId\<close> is the id
  of the bundle; a second call with the same request sends 204 again; the calls it makes
  are the update of that entrypoint and the log of it, so it creates no app and no
  entrypoint; and it leaves the store as it was but for one more entry in the operation
  log, so that the lookups find the same records, with the same link from the entrypoint
  to the bundle.
\<close>

theorem deploy_idempotent:
  assumes "handler (memory_storage newId wellFormed) body s = (Sent 204 None, s1, tr1)"
  shows "\<exists>b a e newEntrypoint.
           lookups (memory_storage newId wellFormed) body s1 =
             Inr (Some b, Some a, Some e) \<and>
           app_id a = appId e \<and> bundleId e = Some (bundle_id b) \<and>
           handler (memory_storage newId wellFormed) body s1 =
             (Sent 204 None,
              s1\<lparr>all_operationLogs :=
                    all_operationLogs s1 @
                    [(updateEntrypoint, UpdatedEntrypoint e newEntrypoint)]\<rparr>,
              [EntrypointsUpdate (entrypoint_id e) \<lparr>patch_bundleId = bundle_id b\<rparr>
                 (Inr newEntrypoint),
               LogOperation updateEntrypoint (UpdatedEntrypoint e newEntrypoint) None]) \<and>
           lookups (memory_storage newId wellFormed) body
             (s1\<lparr>all_operationLogs :=
                    all_operationLogs s1 @
                    [(updateEntrypoint, UpdatedEntrypoint e newEntrypoint)]\<rparr>) =
             Inr (Some b, Some a, Some e)"
proof -
  let ?M = "memory_storage newId wellFormed"
  from assms have sent: "outcome_of (handler ?M body s) = Sent 204 None"
    and s1: "state_of (handler ?M body s) = s1"
    by (simp_all add: outcome_of_def state_of_def)
  from lawful_idempotent [OF memory_storage_laws sent] obtain b a e e0 s0 where
    f0: "findOneByIdOrUrlMatcher ?M (entrypointUrlMatcher body) s0 = Inr (Some e0)"
    and st: "s1 = state_of (update_entrypoint ?M b e0 s0)"
    and ie: "entrypoint_id e = entrypoint_id e0"
    and l1: "lookups ?M body s1 = Inr (Some b, Some a, Some e)"
    and ae: "app_id a = appId e"
    and be: "bundleId e = Some (bundle_id b)"
    and h: "handler ?M body s1 = update_entrypoint ?M b e s1"
    unfolding s1 by blast
  from memory_update_entrypoint [OF f0, of b] st
  have "all_entrypoints s1 =
          map (set_bundleId (entrypoint_id e0) (bundle_id b)) (all_entrypoints s0)"
    by (auto simp add: state_of_def)
  then have same: "map (set_bundleId (entrypoint_id e) (bundle_id b)) (all_entrypoints s1) =
      all_entrypoints s1"
    by (simp add: ie set_bundleId_twice)
  from l1 have f1: "findOneByIdOrUrlMatcher ?M (entrypointUrlMatcher body) s1 = Inr (Some e)"
    by (simp add: lookups_Inr)
  from memory_update_entrypoint [OF f1, of b] obtain newEntrypoint where
    "update_entrypoint ?M b e s1 =
             (Sent 204 None,
              s1\<lparr>all_operationLogs :=
                    all_operationLogs s1 @
                    [(updateEntrypoint, UpdatedEntrypoint e newEntrypoint)]\<rparr>,
              [EntrypointsUpdate (entrypoint_id e) \<lparr>patch_bundleId = bundle_id b\<rparr>
                 (Inr newEntrypoint),
               LogOperation updateEntrypoint (UpdatedEntrypoint e newEntrypoint) None])"
    by (auto simp add: same)
  moreover have "lookups ?M body
             (s1\<lparr>all_operationLogs :=
                    all_operationLogs s1 @
                    [(updateEntrypoint, UpdatedEntrypoint e newEntrypoint)]\<rparr>) =
             lookups ?M body s1"
    by (simp add: lookups_def memory_defs)
  ultimately show ?thesis
    using l1 ae be h by auto
qed

text \<open>
  The first end-to-end scenario of the spec, served twice.
\<close>

theorem deploy_idempotent_witness:
  "handler demo_storage deploy_v1 fresh_store =
     (Sent 204 None, deployed_store, trace_of (handler demo_storage deploy_v1 fresh_store)) \<and>
   handler demo_storage deploy_v1 deployed_store =
     (Sent 204 None,
      deployed_store
        \<lparr>all_operationLogs :=
           all_operationLogs deployed_store @
           [(updateEntrypoint,
             UpdatedEntrypoint
               \<lparr>entrypoint_id = ''id+'', appId = ''id'', urlMatcher = ''acme.example.com/*'',
                configuration = None, bundleId = Some ''b1''\<rparr>
               \<lparr>entrypoint_id = ''id+'', appId = ''id'', urlMatcher = ''acme.example.com/*'',
                configuration = None, bundleId = Some ''b1''\<rparr>)]\<rparr>,
      [EntrypointsUpdate ''id+'' \<lparr>patch_bundleId = ''b1''\<rparr>
         (Inr \<lparr>entrypoint_id = ''id+'', appId = ''id'', urlMatcher = ''acme.example.com/*'',
                configuration = None, bundleId = Some ''b1''\<rparr>),
       LogOperation updateEntrypoint
         (UpdatedEntrypoint
            \<lparr>entrypoint_id = ''id+'', appId = ''id'', urlMatcher = ''acme.example.com/*'',
             configuration = None, bundleId = Some ''b1''\<rparr>
            \<lparr>entrypoint_id = ''id+'', appId = ''id'', urlMatcher = ''acme.example.com/*'',
             configuration = None, bundleId = Some ''b1''\<rparr>)
         None])"
proof -
  have first: "handler (memory_storage unary_id has_slash) deploy_v1 fresh_store =
     (Sent 204 None, deployed_store, trace_of (handler demo_storage deploy_v1 fresh_store))"
    by (simp add: handler_defs memory_defs scenario_defs trace_of_def)
  from deploy_idempotent [OF first] first show ?thesis
    by (simp add: handler_defs memory_defs scenario_defs)
qed

end
